theory Spec2Isabelle
  imports Main
begin

section \<open>Exceptions\<close>

text \<open>
  The script is Python: a function either returns a value or raises. A raise is the
  left injection of a sum, carrying the exception. \<open>SystemExit\<close> is what the builtin
  \<open>exit(n)\<close> raises; it carries the process exit code.
\<close>

datatype error =
    KeyError string
  | AssertionError string
  | ValueError string
  | NameError string
  | AttributeError string
  | SubstrateRequestException string
  | SystemExit int

section \<open>Version classifier\<close>

text \<open>
  \<^verbatim>\<open>
  class ChainMajorVersion(enum.Enum):
      PRE_12_MAJOR_VERSION = 65,
      AT_LEAST_12_MAJOR_VERSION = 68
  \<close>
  The trailing comma makes the value of the first member the one-element tuple \<open>(65,)\<close>;
  the value of the second is the integer \<open>68\<close>.
\<close>

datatype ChainMajorVersion = PRE_12_MAJOR_VERSION | AT_LEAST_12_MAJOR_VERSION

text \<open>What the code passes to the enum class when it calls \<open>cls(...)\<close>.\<close>

datatype enum_arg = Member ChainMajorVersion | IntValue int | TupleValue "int list"

text \<open>
  Calling an \<open>enum.Enum\<close> class: a member is returned as it is, any other argument is
  looked up among the members' values, and a value of no member raises \<open>ValueError\<close>.
\<close>

definition ChainMajorVersion_call :: "enum_arg \<Rightarrow> error + ChainMajorVersion" where
  "ChainMajorVersion_call x =
     (case x of
        Member m \<Rightarrow> Inr m
      | TupleValue t \<Rightarrow>
          (if t = [65] then Inr PRE_12_MAJOR_VERSION
           else Inl (ValueError ''not a valid ChainMajorVersion''))
      | IntValue i \<Rightarrow>
          (if i = 68 then Inr AT_LEAST_12_MAJOR_VERSION
           else Inl (ValueError ''not a valid ChainMajorVersion'')))"

definition from_spec_version :: "int \<Rightarrow> error + ChainMajorVersion" where
  "from_spec_version spec_version =
     ChainMajorVersion_call
       (if spec_version \<le> 65 then Member PRE_12_MAJOR_VERSION
        else Member AT_LEAST_12_MAJOR_VERSION)"

section \<open>Account records\<close>

text \<open>
  An element of the \<open>System.Account\<close> storage map. The counters are fields every runtime
  has; the \<open>data\<close> struct has the keys \<open>free\<close>, \<open>reserved\<close>, \<open>misc_frozen\<close>, \<open>fee_frozen\<close>
  before the upgrade and \<open>free\<close>, \<open>reserved\<close>, \<open>frozen\<close>, \<open>flags\<close> after it, so it is a
  dictionary, and reading a key it does not have raises \<open>KeyError\<close>. Values are Python
  integers.
\<close>

record AccountInfo =
  nonce :: int
  consumers :: int
  providers :: int
  sufficients :: int
  data :: "string \<rightharpoonup> int"

definition getitem :: "(string \<rightharpoonup> int) \<Rightarrow> string \<Rightarrow> error + int" where
  "getitem d k = (case d k of None \<Rightarrow> Inl (KeyError k) | Some v \<Rightarrow> Inr v)"

section \<open>Invariant predicates\<close>

definition check_account_invariants ::
  "AccountInfo \<Rightarrow> ChainMajorVersion \<Rightarrow> int \<Rightarrow> error + bool" where
  "check_account_invariants account chain_major_version ed =
     (let providers_v = providers account;
          consumers_v = consumers account
      in case getitem (data account) ''free'' of Inl e \<Rightarrow> Inl e | Inr free \<Rightarrow>
        (case getitem (data account) ''reserved'' of Inl e \<Rightarrow> Inl e | Inr reserved \<Rightarrow>
          (let account_ref_counter_invariant =
                 ((providers_v \<le> 1 \<and> consumers_v = 0) \<or> (consumers_v > 0 \<and> providers_v = 1))
           in if chain_major_version = PRE_12_MAJOR_VERSION then
               (case getitem (data account) ''misc_frozen'' of Inl e \<Rightarrow> Inl e
                | Inr misc_frozen \<Rightarrow>
                  (case getitem (data account) ''fee_frozen'' of Inl e \<Rightarrow> Inl e
                   | Inr fee_frozen \<Rightarrow>
                     (let ed_is_for_total_balance_invariant = (free + reserved \<ge> ed);
                          locked_balance_is_on_free_balance_invariant =
                            (free \<ge> max misc_frozen fee_frozen)
                      in Inr (account_ref_counter_invariant \<and>
                              ed_is_for_total_balance_invariant \<and>
                              locked_balance_is_on_free_balance_invariant))))
              else
               (case getitem (data account) ''frozen'' of Inl e \<Rightarrow> Inl e
                | Inr frozen \<Rightarrow>
                  (case getitem (data account) ''flags'' of Inl e \<Rightarrow> Inl e
                   | Inr flags \<Rightarrow>
                     (let ed_is_for_free_balance_only_invariant = (free \<ge> ed);
                          locked_balance_is_on_total_balance_invariant =
                            (free + reserved \<ge> frozen);
                          is_account_already_upgraded = (flags \<ge> 2 ^ 127);
                          consumer_ref_applies_to_suspended_balances_invariant =
                            (\<not> is_account_already_upgraded \<or> (frozen = 0 \<and> reserved = 0)
                             \<or> consumers_v > 0)
                      in Inr (account_ref_counter_invariant \<and>
                              ed_is_for_free_balance_only_invariant \<and>
                              locked_balance_is_on_total_balance_invariant \<and>
                              consumer_ref_applies_to_suspended_balances_invariant)))))))"

text \<open>
  The dust predicate. Its two \<open>assert\<close> statements raise \<open>AssertionError\<close>; the second
  one evaluates \<open>check_account_invariants\<close>, so an exception of that call comes out of
  the assertion as it is. The message of the second assertion also prints the account;
  the model keeps its fixed part.
\<close>

definition check_if_account_would_be_dust_in_12_version ::
  "AccountInfo \<Rightarrow> ChainMajorVersion \<Rightarrow> int \<Rightarrow> error + bool" where
  "check_if_account_would_be_dust_in_12_version account chain_major_version ed =
     (if chain_major_version \<noteq> PRE_12_MAJOR_VERSION then
        Inl (AssertionError ''Chain major version must be less than 12!'')
      else case check_account_invariants account chain_major_version ed of
             Inl e \<Rightarrow> Inl e
           | Inr ok \<Rightarrow>
               (if \<not> ok then
                  Inl (AssertionError ''Account does not meet pre-12 version invariants!'')
                else (case getitem (data account) ''free'' of
                        Inl e \<Rightarrow> Inl e
                      | Inr free \<Rightarrow> Inr (free < ed))))"

text \<open>The two layouts of the \<open>data\<close> struct, as the chain decodes them.\<close>

definition pre_12_account_data :: "int \<Rightarrow> int \<Rightarrow> int \<Rightarrow> int \<Rightarrow> (string \<rightharpoonup> int)" where
  "pre_12_account_data free reserved misc_frozen fee_frozen =
     [''free'' \<mapsto> free, ''reserved'' \<mapsto> reserved,
      ''misc_frozen'' \<mapsto> misc_frozen, ''fee_frozen'' \<mapsto> fee_frozen]"

definition at_least_12_account_data :: "int \<Rightarrow> int \<Rightarrow> int \<Rightarrow> int \<Rightarrow> (string \<rightharpoonup> int)" where
  "at_least_12_account_data free reserved frozen flags =
     [''free'' \<mapsto> free, ''reserved'' \<mapsto> reserved,
      ''frozen'' \<mapsto> frozen, ''flags'' \<mapsto> flags]"

section \<open>The chain client and the observable world\<close>

text \<open>
  Calls, key pairs, signed extrinsics and receipts are values of the chain-client
  library. \<open>compose_call\<close> builds a call from its module, function and parameters,
  \<open>Keypair.create_from_uri\<close> derives a key pair from a seed and
  \<open>create_signed_extrinsic\<close> pairs a call with the key pair that signs it.
\<close>

datatype call =
    Balances_transfer string int
  | Utility_batch "call list"
  | Balances_upgrade_accounts "string list"

datatype Keypair = create_from_uri string

datatype extrinsic = create_signed_extrinsic call Keypair

record receipt =
  block_hash :: string
  total_fee_amount :: int
  is_success :: bool
  error_message :: string
  triggered_events :: "string list"

text \<open>
  The connection to the chain, as far as the script reads it. The chain's state is not
  the script's: what a storage query yields and how a submission ends may depend on the
  extrinsics handed to the chain so far, so both take that history. A storage query
  yields the accounts page by page; a submission ends in a receipt or raises.
\<close>

record chain =
  chain_name :: string
  chain_chain :: string
  chain_version :: string
  specVersion :: int
  ExistentialDeposit :: int
  System_Account :: "extrinsic list \<Rightarrow> (string \<times> AccountInfo) list list"
  submit :: "extrinsic list \<Rightarrow> extrinsic \<Rightarrow> error + receipt"

datatype level = DEBUG | INFO | WARNING | ERROR

text \<open>
  One constructor for each logging call of the script, carrying the values the message
  interpolates. Balances are carried as the integers they are: \<open>format_balance\<close> only
  renders them for reading.
\<close>

datatype message =
    Account_does_not_meet_given_predicate string string
  | Checked_accounts nat
  | Total_accounts_that_match_given_predicate string nat
  | About_to_send_transfers nat int Keypair "string list"
  | Extrinsic_to_be_sent extrinsic
  | Extrinsic_included_in_block string int
  | Extrinsic_success
  | Emitted_fewer_events_than_expected nat nat
  | Extrinsic_failed_with_following_message string
  | Not_sending_extrinsic_dry_run_is_enabled
  | Failed_to_submit_extrinsic string
  | Querying_all_accounts
  | About_to_upgrade_accounts nat int
  | Found_accounts_that_do_not_meet_balances_invariants nat
  | All_accounts_meet_balances_invariants string
  | Wrote_file string
  | SENDER_ACCOUNT_must_exist_Exiting
  | Dry_run_mode_is_enabled
  | Connected_to string string string
  | Major_version_of_chain_connected_to_is ChainMajorVersion
  | Fix_free_balance_only_on_pre_12_Exiting
  | Upgrade_accounts_only_on_at_least_12_Exiting
  | Existential_deposit_is int
  | Using_following_account_for_transfers Keypair
  | Will_send_at_most_transfers_in_a_batch int
  | Looking_for_accounts_that_would_be_dust_in_12_version
  | Found_accounts_that_will_be_invalid_in_12_version nat
  | Adjusting_balances_by_sending_transfers
  | Transfers_done
  | No_dust_accounts_found_skipping_transfers
  | Using_following_account_for_upgrade_accounts Keypair
  | Will_upgrade_at_most_accounts_in_a_batch int
  | Upgrade_accounts_done
  | Performing_pallet_balances_sanity_checks
  | DONE

text \<open>
  What a run leaves behind: the logging calls in order, the JSON files by name, the
  number of storage queries started, the extrinsics signed and the extrinsics handed to
  the chain for submission, both in order. The log file the logger also writes to is
  named after the script and the start time; \<open>files\<close> holds the JSON artifacts.
\<close>

record world =
  log_records :: "(level \<times> message) list"
  files :: "string \<rightharpoonup> (string \<times> AccountInfo) list"
  queries :: nat
  signed :: "extrinsic list"
  submitted :: "extrinsic list"

definition log_msg :: "level \<Rightarrow> message \<Rightarrow> world \<Rightarrow> world" where
  "log_msg lvl m w = w\<lparr>log_records := log_records w @ [(lvl, m)]\<rparr>"

text \<open>
  The artifact writer is the only place that logs \<open>Wrote file\<close>, and it does so each time
  it writes: the names in these log records, in order, are the invocations of the writer.
\<close>

fun file_written :: "message \<Rightarrow> string list" where
  "file_written (Wrote_file json_file_name) = [json_file_name]"
| "file_written m = []"

definition written_files :: "world \<Rightarrow> string list" where
  "written_files w = concat (map (\<lambda>(lvl, m). file_written m) (log_records w))"

definition get_chain_major_version :: "chain \<Rightarrow> error + ChainMajorVersion" where
  "get_chain_major_version chain_connection =
     (let spec_version = specVersion chain_connection;
          major_version = from_spec_version spec_version
      in major_version)"

section \<open>Paginated scanner\<close>

text \<open>
  \<open>info.serialize()\<close> gives the plain value of the decoded record; the model's record
  is that value already.
\<close>

definition serialize :: "AccountInfo \<Rightarrow> AccountInfo" where
  "serialize info = info"

text \<open>
  The body of the \<open>for\<close> loop over \<open>enumerate(account_query)\<close>. The loop state is the
  list of accounts that do not meet the predicate and the running count; a predicate
  that raises ends the loop with its exception.
\<close>

fun filter_false_accounts_loop ::
  "(AccountInfo \<Rightarrow> ChainMajorVersion \<Rightarrow> int \<Rightarrow> error + bool) \<Rightarrow> ChainMajorVersion \<Rightarrow> int \<Rightarrow>
   string \<Rightarrow> (nat \<times> string \<times> AccountInfo) list \<Rightarrow> (string \<times> AccountInfo) list \<times> nat \<Rightarrow>
   world \<Rightarrow> world \<times> (error + (string \<times> AccountInfo) list \<times> nat)" where
  "filter_false_accounts_loop check_accounts_predicate chain_major_version ed
     check_accounts_predicate_name [] st w = (w, Inr st)"
| "filter_false_accounts_loop check_accounts_predicate chain_major_version ed
     check_accounts_predicate_name ((i, account_id, info) # rest)
     (accounts_that_do_not_meet_predicate, total_accounts_count) w =
     (case check_accounts_predicate info chain_major_version ed of
        Inl e \<Rightarrow> (w, Inl e)
      | Inr ok \<Rightarrow>
          let w1 = (if \<not> ok
                    then log_msg DEBUG
                           (Account_does_not_meet_given_predicate account_id
                              check_accounts_predicate_name) w
                    else w);
              accounts_that_do_not_meet_predicate' =
                (if \<not> ok
                 then accounts_that_do_not_meet_predicate @ [(account_id, serialize info)]
                 else accounts_that_do_not_meet_predicate);
              w2 = (if i mod 5000 = 0 \<and> i > 0
                    then log_msg INFO (Checked_accounts i) w1 else w1)
          in filter_false_accounts_loop check_accounts_predicate chain_major_version ed
               check_accounts_predicate_name rest
               (accounts_that_do_not_meet_predicate', total_accounts_count + 1) w2)"

text \<open>
  The scanner. The iterator of \<open>query_map\<close> yields the accounts of the pages in order,
  page after page. The count of the accounts visited goes to the last logging call;
  the value returned is the list alone.
\<close>

definition filter_false_accounts ::
  "chain \<Rightarrow> int \<Rightarrow> ChainMajorVersion \<Rightarrow>
   (AccountInfo \<Rightarrow> ChainMajorVersion \<Rightarrow> int \<Rightarrow> error + bool) \<Rightarrow> string \<Rightarrow>
   world \<Rightarrow> world \<times> (error + (string \<times> AccountInfo) list)" where
  "filter_false_accounts chain_connection ed chain_major_version check_accounts_predicate
     check_accounts_predicate_name w =
     (let account_query = concat (System_Account chain_connection (submitted w));
          w0 = w\<lparr>queries := queries w + 1\<rparr>
      in case filter_false_accounts_loop check_accounts_predicate chain_major_version ed
                check_accounts_predicate_name (enumerate 0 account_query) ([], 0) w0 of
           (w1, Inl e) \<Rightarrow> (w1, Inl e)
         | (w1, Inr (accounts_that_do_not_meet_predicate, total_accounts_count)) \<Rightarrow>
             (log_msg INFO
                (Total_accounts_that_match_given_predicate check_accounts_predicate_name
                   total_accounts_count) w1,
              Inr accounts_that_do_not_meet_predicate))"

definition quoted :: "string \<Rightarrow> string" where
  "quoted s = CHR 0x27 # s @ [CHR 0x27]"

definition find_dust_accounts ::
  "chain \<Rightarrow> int \<Rightarrow> ChainMajorVersion \<Rightarrow> world \<Rightarrow>
   world \<times> (error + (string \<times> AccountInfo) list)" where
  "find_dust_accounts chain_connection ed chain_major_version w =
     (if chain_major_version \<noteq> PRE_12_MAJOR_VERSION then
        (w, Inl (AssertionError ''Chain major version must be less than 12!''))
      else filter_false_accounts chain_connection ed chain_major_version
             (\<lambda>x y z. case check_if_account_would_be_dust_in_12_version x y z of
                         Inl e \<Rightarrow> Inl e | Inr b \<Rightarrow> Inr (\<not> b))
             (quoted ''account valid in pre-12 version but not in 12 version'') w)"

section \<open>Batch action dispatcher\<close>

text \<open>
  \<open>chunks\<close> is a generator over \<open>range(0, len(list_of_elements), n)\<close> that yields the
  slices \<open>list_of_elements[i:i + n]\<close>. A step of zero makes \<open>range\<close> raise
  \<open>ValueError\<close>; a negative step gives an empty range when the start is zero. For a
  positive step the indices are \<open>0, n, 2n, ...\<close> below the length; the guard \<open>0 < n\<close>
  of the loop is what makes it end.
\<close>

function chunks_from :: "'a list \<Rightarrow> nat \<Rightarrow> nat \<Rightarrow> 'a list list" where
  "chunks_from list_of_elements n i =
     (if 0 < n \<and> i < length list_of_elements
      then take n (drop i list_of_elements) # chunks_from list_of_elements n (i + n)
      else [])"
  by pat_completeness auto
termination
  by (relation "measure (\<lambda>(list_of_elements, n, i). length list_of_elements - i)") auto

definition chunks :: "'a list \<Rightarrow> int \<Rightarrow> error + 'a list list" where
  "chunks list_of_elements n =
     (if n = 0 then Inl (ValueError ''range() arg 3 must not be zero'')
      else if n < 0 then Inr []
      else Inr (chunks_from list_of_elements (nat n) 0))"

text \<open>The options of the command line, as \<open>argparse\<close> returns them.\<close>

record args =
  args_ws_url :: string
  args_log_level :: string
  args_dry_run :: bool
  args_transfer_calls_in_batch :: int
  args_upgrade_accounts_in_batch :: int
  args_fix_free_balance :: bool
  args_upgrade_accounts :: bool

text \<open>
  The attribute lookup \<open>substrateinterface.SubstrateRequestException\<close>. The package
  \<open>substrateinterface\<close> keeps its exception classes in the module
  \<open>substrateinterface.exceptions\<close> and does not export them at its top level, so the
  lookup raises \<open>AttributeError\<close>.
\<close>

definition substrateinterface_SubstrateRequestException :: "error + unit" where
  "substrateinterface_SubstrateRequestException =
     Inl (AttributeError
            ''module substrateinterface has no attribute SubstrateRequestException'')"

text \<open>
  Submitting one signed extrinsic. When an exception of the submission reaches the
  clause \<open>except substrateinterface.SubstrateRequestException as e\<close>, Python first
  evaluates the expression after \<open>except\<close>. That lookup raises, so its
  \<open>AttributeError\<close> is what leaves the function, and the body of the handler (the
  warning and \<open>raise e\<close>) does not run. The body is kept as the source has it, under the
  case in which the lookup would return.
\<close>

definition submit_extrinsic ::
  "chain \<Rightarrow> extrinsic \<Rightarrow> nat \<Rightarrow> bool \<Rightarrow> world \<Rightarrow> world \<times> (error + unit)" where
  "submit_extrinsic chain_connection extrinsic expected_number_of_events dry_run w =
     (let w1 = log_msg DEBUG (Extrinsic_to_be_sent extrinsic) w
      in if \<not> dry_run then
           (let w2 = w1\<lparr>submitted := submitted w1 @ [extrinsic]\<rparr>
            in case submit chain_connection (submitted w1) extrinsic of
                 Inl e \<Rightarrow>
                   (case substrateinterface_SubstrateRequestException of
                      Inl lookup_error \<Rightarrow> (w2, Inl lookup_error)
                    | Inr cls \<Rightarrow>
                        (case e of
                           SubstrateRequestException m \<Rightarrow>
                             (log_msg WARNING (Failed_to_submit_extrinsic m) w2, Inl e)
                         | _ \<Rightarrow> (w2, Inl e)))
               | Inr receipt \<Rightarrow>
                   (let w3 = log_msg INFO
                               (Extrinsic_included_in_block (block_hash receipt)
                                  (total_fee_amount receipt)) w2
                    in if is_success receipt then
                         (let w4 = log_msg DEBUG Extrinsic_success w3
                          in if length (triggered_events receipt) < expected_number_of_events
                             then (log_msg DEBUG
                                     (Emitted_fewer_events_than_expected
                                        (length (triggered_events receipt))
                                        expected_number_of_events) w4, Inr ())
                             else (w4, Inr ()))
                       else (log_msg WARNING
                               (Extrinsic_failed_with_following_message
                                  (error_message receipt)) w3, Inr ())))
         else (log_msg INFO Not_sending_extrinsic_dry_run_is_enabled w1, Inr ()))"

text \<open>The extrinsic \<open>batch_transfer\<close> builds and signs for one chunk of addresses.\<close>

definition transfer_extrinsic :: "int \<Rightarrow> Keypair \<Rightarrow> string list \<Rightarrow> extrinsic" where
  "transfer_extrinsic amount sender_keypair account_ids_chunk =
     (let balance_calls = map (\<lambda>account. Balances_transfer account amount) account_ids_chunk;
          batch_call = Utility_batch balance_calls
      in create_signed_extrinsic batch_call sender_keypair)"

text \<open>
  The body of the \<open>for\<close> loop of \<open>batch_transfer\<close> over the chunks: build, sign, log,
  submit; an exception of the submission ends the loop. The generator is consumed one
  chunk per iteration, so a chunk is built only when the loop reaches it. The source
  reads the dry-run switch from the global \<open>args\<close>, which is the object the main program
  passes as \<open>input_args\<close>.
\<close>

fun batch_transfer_loop ::
  "chain \<Rightarrow> args \<Rightarrow> string list list \<Rightarrow> int \<Rightarrow> Keypair \<Rightarrow> world \<Rightarrow> world \<times> (error + unit)" where
  "batch_transfer_loop chain_connection input_args [] amount sender_keypair w = (w, Inr ())"
| "batch_transfer_loop chain_connection input_args (account_ids_chunk # rest) amount
     sender_keypair w =
     (let extrinsic = transfer_extrinsic amount sender_keypair account_ids_chunk;
          w1 = w\<lparr>signed := signed w @ [extrinsic]\<rparr>;
          w2 = log_msg INFO
                 (About_to_send_transfers (length account_ids_chunk) amount sender_keypair
                    account_ids_chunk) w1
      in case submit_extrinsic chain_connection extrinsic (length account_ids_chunk)
                (args_dry_run input_args) w2 of
           (w3, Inl e) \<Rightarrow> (w3, Inl e)
         | (w3, Inr u) \<Rightarrow>
             batch_transfer_loop chain_connection input_args rest amount sender_keypair w3)"

definition batch_transfer ::
  "chain \<Rightarrow> args \<Rightarrow> string list \<Rightarrow> int \<Rightarrow> Keypair \<Rightarrow> world \<Rightarrow> world \<times> (error + unit)" where
  "batch_transfer chain_connection input_args accounts amount sender_keypair w =
     (case chunks accounts (args_transfer_calls_in_batch input_args) of
        Inl e \<Rightarrow> (w, Inl e)
      | Inr cs \<Rightarrow>
          batch_transfer_loop chain_connection input_args cs amount sender_keypair w)"

text \<open>
  The first statement of \<open>upgrade_accounts\<close>: the addresses of the pairs the scanner
  returns for the predicate \<open>lambda x, y, z: False\<close>.
\<close>

definition all_accounts_on_chain ::
  "chain \<Rightarrow> int \<Rightarrow> ChainMajorVersion \<Rightarrow> world \<Rightarrow> world \<times> (error + string list)" where
  "all_accounts_on_chain chain_connection ed chain_major_version w =
     (case filter_false_accounts chain_connection ed chain_major_version
             (\<lambda>x y z. Inr False) (quoted ''all accounts'') w of
        (w1, Inl e) \<Rightarrow> (w1, Inl e)
      | (w1, Inr pairs) \<Rightarrow> (w1, Inr (map fst pairs)))"

text \<open>
  The loop of \<open>upgrade_accounts\<close>: one call per chunk, taking the chunk's addresses. Its
  log message reads the global \<open>existential_deposit\<close>, the value the main program passes
  as \<open>ed\<close>.
\<close>

definition upgrade_accounts_extrinsic :: "Keypair \<Rightarrow> string list \<Rightarrow> extrinsic" where
  "upgrade_accounts_extrinsic sender_keypair account_ids_chunk =
     (let upgrade_accounts_call = Balances_upgrade_accounts account_ids_chunk
      in create_signed_extrinsic upgrade_accounts_call sender_keypair)"

fun upgrade_accounts_loop ::
  "chain \<Rightarrow> args \<Rightarrow> string list list \<Rightarrow> int \<Rightarrow> Keypair \<Rightarrow> world \<Rightarrow> world \<times> (error + unit)" where
  "upgrade_accounts_loop chain_connection input_args [] ed sender_keypair w = (w, Inr ())"
| "upgrade_accounts_loop chain_connection input_args (account_ids_chunk # rest) ed
     sender_keypair w =
     (let extrinsic = upgrade_accounts_extrinsic sender_keypair account_ids_chunk;
          w1 = w\<lparr>signed := signed w @ [extrinsic]\<rparr>;
          w2 = log_msg INFO (About_to_upgrade_accounts (length account_ids_chunk) ed) w1
      in case submit_extrinsic chain_connection extrinsic (length account_ids_chunk)
                (args_dry_run input_args) w2 of
           (w3, Inl e) \<Rightarrow> (w3, Inl e)
         | (w3, Inr u) \<Rightarrow>
             upgrade_accounts_loop chain_connection input_args rest ed sender_keypair w3)"

definition upgrade_accounts ::
  "chain \<Rightarrow> args \<Rightarrow> int \<Rightarrow> ChainMajorVersion \<Rightarrow> Keypair \<Rightarrow> world \<Rightarrow> world \<times> (error + unit)" where
  "upgrade_accounts chain_connection input_args ed chain_major_version sender_keypair w =
     (let w1 = log_msg INFO Querying_all_accounts w
      in case all_accounts_on_chain chain_connection ed chain_major_version w1 of
           (w2, Inl e) \<Rightarrow> (w2, Inl e)
         | (w2, Inr accounts) \<Rightarrow>
             (case chunks accounts (args_upgrade_accounts_in_batch input_args) of
                Inl e \<Rightarrow> (w2, Inl e)
              | Inr cs \<Rightarrow>
                  upgrade_accounts_loop chain_connection input_args cs ed sender_keypair w2))"

section \<open>Artifact writer and sanity checks\<close>

definition save_accounts_to_json_file ::
  "string \<Rightarrow> (string \<times> AccountInfo) list \<Rightarrow> world \<Rightarrow> world" where
  "save_accounts_to_json_file json_file_name accounts w =
     log_msg INFO (Wrote_file json_file_name)
       (w\<lparr>files := (files w)(json_file_name \<mapsto> accounts)\<rparr>)"

definition perform_account_sanity_checks ::
  "chain \<Rightarrow> int \<Rightarrow> ChainMajorVersion \<Rightarrow> world \<Rightarrow> world \<times> (error + unit)" where
  "perform_account_sanity_checks chain_connection ed chain_major_version w =
     (case filter_false_accounts chain_connection ed chain_major_version
             check_account_invariants (quoted ''account invariants'') w of
        (w1, Inl e) \<Rightarrow> (w1, Inl e)
      | (w1, Inr invalid_accounts) \<Rightarrow>
          if length invalid_accounts > 0 then
            (save_accounts_to_json_file ''accounts-with-failed-invariants.json''
               invalid_accounts
               (log_msg WARNING
                  (Found_accounts_that_do_not_meet_balances_invariants
                     (length invalid_accounts)) w1),
             Inr ())
          else
            (log_msg INFO
               (All_accounts_meet_balances_invariants (chain_chain chain_connection)) w1,
             Inr ()))"

section \<open>Orchestrator\<close>

text \<open>
  The block of the main program under \<open>if args.fix_free_balance:\<close>. The variable
  \<open>sender_origin_account_seed\<close> is bound only when a remediation flag is set; reading
  it unbound would raise \<open>NameError\<close>.
\<close>

definition fix_free_balance_block ::
  "args \<Rightarrow> string option \<Rightarrow> chain \<Rightarrow> int \<Rightarrow> ChainMajorVersion \<Rightarrow> world \<Rightarrow>
   world \<times> (error + unit)" where
  "fix_free_balance_block args sender_origin_account_seed chain_ws_connection
     existential_deposit chain_major_version w =
     (case sender_origin_account_seed of
        None \<Rightarrow> (w, Inl (NameError ''sender_origin_account_seed''))
      | Some seed \<Rightarrow>
          (let sender_origin_account_keypair = create_from_uri seed;
               w1 = log_msg INFO
                      (Using_following_account_for_transfers sender_origin_account_keypair) w;
               w2 = log_msg INFO
                      (Will_send_at_most_transfers_in_a_batch
                         (args_transfer_calls_in_batch args)) w1;
               w3 = log_msg INFO Looking_for_accounts_that_would_be_dust_in_12_version w2
           in case find_dust_accounts chain_ws_connection existential_deposit
                     chain_major_version w3 of
                (w4, Inl e) \<Rightarrow> (w4, Inl e)
              | (w4, Inr dust_accounts_in_12_version) \<Rightarrow>
                  if length dust_accounts_in_12_version \<noteq> 0 then
                    (let w5 = log_msg INFO
                                (Found_accounts_that_will_be_invalid_in_12_version
                                   (length dust_accounts_in_12_version)) w4;
                         w6 = save_accounts_to_json_file ''dust-accounts.json''
                                dust_accounts_in_12_version w5;
                         w7 = log_msg INFO Adjusting_balances_by_sending_transfers w6
                     in case batch_transfer chain_ws_connection args
                               (map fst dust_accounts_in_12_version) existential_deposit
                               sender_origin_account_keypair w7 of
                          (w8, Inl e) \<Rightarrow> (w8, Inl e)
                        | (w8, Inr u) \<Rightarrow> (log_msg INFO Transfers_done w8, Inr ()))
                  else (log_msg INFO No_dust_accounts_found_skipping_transfers w4, Inr ())))"

text \<open>The block of the main program under \<open>if args.upgrade_accounts:\<close>.\<close>

definition upgrade_accounts_block ::
  "args \<Rightarrow> string option \<Rightarrow> chain \<Rightarrow> int \<Rightarrow> ChainMajorVersion \<Rightarrow> world \<Rightarrow>
   world \<times> (error + unit)" where
  "upgrade_accounts_block args sender_origin_account_seed chain_ws_connection
     existential_deposit chain_major_version w =
     (case sender_origin_account_seed of
        None \<Rightarrow> (w, Inl (NameError ''sender_origin_account_seed''))
      | Some seed \<Rightarrow>
          (let sender_origin_account_keypair = create_from_uri seed;
               w1 = log_msg INFO
                      (Using_following_account_for_upgrade_accounts
                         sender_origin_account_keypair) w;
               w2 = log_msg INFO
                      (Will_upgrade_at_most_accounts_in_a_batch
                         (args_upgrade_accounts_in_batch args)) w1
           in case upgrade_accounts chain_ws_connection args existential_deposit
                     chain_major_version sender_origin_account_keypair w2 of
                (w3, Inl e) \<Rightarrow> (w3, Inl e)
              | (w3, Inr u) \<Rightarrow> (log_msg INFO Upgrade_accounts_done w3, Inr ())))"

text \<open>
  The main program, from the parsed options, the value of the environment variable
  \<open>SENDER_ACCOUNT\<close> and the chain it connects to. \<open>exit(n)\<close> raises \<open>SystemExit n\<close>,
  which nothing catches: the process ends with code \<open>n\<close>.
\<close>

definition main :: "args \<Rightarrow> string option \<Rightarrow> chain \<Rightarrow> world \<Rightarrow> world \<times> (error + unit)" where
  "main args SENDER_ACCOUNT chain_ws_connection w =
     (let sender_origin_account_seed =
            (if args_fix_free_balance args \<or> args_upgrade_accounts args
             then SENDER_ACCOUNT else None)
      in if (args_fix_free_balance args \<or> args_upgrade_accounts args) \<and>
            sender_origin_account_seed = None
         then (log_msg ERROR SENDER_ACCOUNT_must_exist_Exiting w, Inl (SystemExit 1))
         else
          (let w1 = (if args_dry_run args then log_msg INFO Dry_run_mode_is_enabled w else w);
               w2 = log_msg INFO
                      (Connected_to (chain_name chain_ws_connection)
                         (chain_chain chain_ws_connection)
                         (chain_version chain_ws_connection)) w1
           in case get_chain_major_version chain_ws_connection of
                Inl e \<Rightarrow> (w2, Inl e)
              | Inr chain_major_version \<Rightarrow>
                 (let w3 = log_msg INFO
                             (Major_version_of_chain_connected_to_is chain_major_version) w2
                  in if args_fix_free_balance args \<and>
                        chain_major_version \<noteq> PRE_12_MAJOR_VERSION
                     then (log_msg ERROR Fix_free_balance_only_on_pre_12_Exiting w3,
                           Inl (SystemExit 2))
                     else if args_upgrade_accounts args \<and>
                             chain_major_version \<noteq> AT_LEAST_12_MAJOR_VERSION
                     then (log_msg ERROR Upgrade_accounts_only_on_at_least_12_Exiting w3,
                           Inl (SystemExit 3))
                     else
                      (let existential_deposit = ExistentialDeposit chain_ws_connection;
                           w4 = log_msg INFO (Existential_deposit_is existential_deposit) w3
                       in case (if args_fix_free_balance args
                                then fix_free_balance_block args sender_origin_account_seed
                                       chain_ws_connection existential_deposit
                                       chain_major_version w4
                                else (w4, Inr ())) of
                            (w5, Inl e) \<Rightarrow> (w5, Inl e)
                          | (w5, Inr u) \<Rightarrow>
                             (case (if args_upgrade_accounts args
                                    then upgrade_accounts_block args
                                           sender_origin_account_seed chain_ws_connection
                                           existential_deposit chain_major_version w5
                                    else (w5, Inr ())) of
                                (w6, Inl e) \<Rightarrow> (w6, Inl e)
                              | (w6, Inr u) \<Rightarrow>
                                 (case perform_account_sanity_checks chain_ws_connection
                                         existential_deposit chain_major_version
                                         (log_msg INFO
                                            Performing_pallet_balances_sanity_checks w6) of
                                    (w7, Inl e) \<Rightarrow> (w7, Inl e)
                                  | (w7, Inr u) \<Rightarrow> (log_msg INFO DONE w7, Inr ())))))))"

section \<open>Concrete inputs\<close>

text \<open>
  A pre-upgrade chain whose account iterator yields five pages of sizes 3, 3, 3, 3 and 1.
  The second and the ninth account yielded fail the pre-upgrade invariants; the sixth
  meets them with a free balance below the existential deposit of 500.
\<close>

definition account_pre_12 :: "int \<Rightarrow> int \<Rightarrow> int \<Rightarrow> int \<Rightarrow> AccountInfo" where
  "account_pre_12 providers_v consumers_v free reserved =
     \<lparr>nonce = 0, consumers = consumers_v, providers = providers_v, sufficients = 0,
      data = pre_12_account_data free reserved 0 0\<rparr>"

definition example_pages :: "(string \<times> AccountInfo) list list" where
  "example_pages =
     [[(''5A01'', account_pre_12 1 0 1000 0), (''5A02'', account_pre_12 2 0 1000 0),
       (''5A03'', account_pre_12 1 0 1000 0)],
      [(''5A04'', account_pre_12 1 1 700 50), (''5A05'', account_pre_12 1 0 1000 0),
       (''5A06'', account_pre_12 1 0 499 1)],
      [(''5A07'', account_pre_12 1 0 1000 0), (''5A08'', account_pre_12 1 0 1000 0),
       (''5A09'', account_pre_12 1 0 300 100)],
      [(''5A10'', account_pre_12 1 0 1000 0), (''5A11'', account_pre_12 1 0 1000 0),
       (''5A12'', account_pre_12 1 0 1000 0)],
      [(''5A13'', account_pre_12 1 0 1000 0)]]"

definition example_chain :: chain where
  "example_chain =
     \<lparr>chain_name = ''aleph-node'', chain_chain = ''Aleph Zero Testnet'',
      chain_version = ''0.11.4'', specVersion = 65, ExistentialDeposit = 500,
      System_Account = (\<lambda>history. example_pages),
      submit = (\<lambda>history ext. Inl (SubstrateRequestException ''connection closed''))\<rparr>"

text \<open>Two smaller chains: one account that meets the invariants, and no account.\<close>

definition one_account_chain :: chain where
  "one_account_chain =
     example_chain\<lparr>System_Account := (\<lambda>history. [[(''5A01'', account_pre_12 1 0 1000 0)]])\<rparr>"

definition no_account_chain :: chain where
  "no_account_chain = example_chain\<lparr>System_Account := (\<lambda>history. [])\<rparr>"

definition initial_world :: world where
  "initial_world = \<lparr>log_records = [], files = Map.empty, queries = 0, signed = [],
     submitted = []\<rparr>"

text \<open>A chain that holds only the two accounts of the five-page chain that fail.\<close>

definition two_account_chain :: chain where
  "two_account_chain =
     example_chain\<lparr>System_Account :=
       (\<lambda>history. [[(''5A02'', account_pre_12 2 0 1000 0),
                     (''5A09'', account_pre_12 1 0 300 100)]])\<rparr>"

text \<open>
  Options of a run that tops up dust accounts two at a time, and two chains for it: on
  the first the second submission is included but fails on chain, on the second the
  second submission raises a transport error. Every other submission succeeds.
\<close>

definition example_args :: args where
  "example_args =
     \<lparr>args_ws_url = ''wss://ws.test.azero.dev:443'', args_log_level = ''info'',
      args_dry_run = False, args_transfer_calls_in_batch = 2,
      args_upgrade_accounts_in_batch = 128, args_fix_free_balance = True,
      args_upgrade_accounts = False\<rparr>"

definition included :: "bool \<Rightarrow> receipt" where
  "included ok =
     \<lparr>block_hash = ''0x5e1f'', total_fee_amount = 1200, is_success = ok,
      error_message = (if ok then [] else ''Token.FundsUnavailable''),
      triggered_events = []\<rparr>"

definition rejecting_chain :: chain where
  "rejecting_chain =
     example_chain\<lparr>submit := (\<lambda>history ext. Inr (included (length history \<noteq> 1)))\<rparr>"

definition failing_chain :: chain where
  "failing_chain =
     example_chain\<lparr>submit :=
       (\<lambda>history ext. if length history = 1
                      then Inl (SubstrateRequestException ''connection closed'')
                      else Inr (included True))\<rparr>"

text \<open>
  A pre-upgrade chain of three accounts that all meet the pre-upgrade invariants; the
  second has a free balance below the existential deposit of 500. On it every submission
  succeeds. A world in which both artifact files exist from an earlier run.
\<close>

definition dusty_chain :: chain where
  "dusty_chain =
     example_chain\<lparr>System_Account :=
         (\<lambda>history. [[(''5A04'', account_pre_12 1 1 700 50),
                       (''5A06'', account_pre_12 1 0 499 1)],
                      [(''5A07'', account_pre_12 1 0 1000 0)]]),
       submit := (\<lambda>history ext. Inr (included True))\<rparr>"

definition later_world :: world where
  "later_world =
     initial_world\<lparr>files :=
       [''dust-accounts.json'' \<mapsto> [(''5A99'', account_pre_12 1 0 1 499)],
        ''accounts-with-failed-invariants.json'' \<mapsto> [(''5A98'', account_pre_12 3 0 1 1)]]\<rparr>"

text \<open>A chain past the upgrade, and the options of an account-upgrade run.\<close>

definition upgraded_chain :: chain where
  "upgraded_chain = example_chain\<lparr>specVersion := 66\<rparr>"

definition upgrade_args :: args where
  "upgrade_args =
     example_args\<lparr>args_fix_free_balance := False, args_upgrade_accounts := True\<rparr>"

section \<open>Properties of the classifier and the predicates\<close>

lemma getitem_pre_12 [simp]:
  "getitem (pre_12_account_data f r m e) ''free'' = Inr f"
  "getitem (pre_12_account_data f r m e) ''reserved'' = Inr r"
  "getitem (pre_12_account_data f r m e) ''misc_frozen'' = Inr m"
  "getitem (pre_12_account_data f r m e) ''fee_frozen'' = Inr e"
  by (simp_all add: getitem_def pre_12_account_data_def)

lemma getitem_at_least_12 [simp]:
  "getitem (at_least_12_account_data f r z g) ''free'' = Inr f"
  "getitem (at_least_12_account_data f r z g) ''reserved'' = Inr r"
  "getitem (at_least_12_account_data f r z g) ''frozen'' = Inr z"
  "getitem (at_least_12_account_data f r z g) ''flags'' = Inr g"
  by (simp_all add: getitem_def at_least_12_account_data_def)


text \<open>
  Claim C6. For every integer spec version \<open>v\<close> the classifier returns: it yields
  the pre-upgrade regime when \<open>v \<le> 65\<close> and the at-least-upgrade regime otherwise. It
  never raises, because the argument of the enum call is always a member.
\<close>

theorem from_spec_version_total:
  "from_spec_version v =
     Inr (if v \<le> 65 then PRE_12_MAJOR_VERSION else AT_LEAST_12_MAJOR_VERSION)"
  by (simp add: from_spec_version_def ChainMajorVersion_call_def)

theorem from_spec_version_total_witness:
  "from_spec_version 65 = Inr PRE_12_MAJOR_VERSION \<and>
   from_spec_version 66 = Inr AT_LEAST_12_MAJOR_VERSION \<and>
   from_spec_version (- 4) = Inr PRE_12_MAJOR_VERSION \<and>
   from_spec_version 68 = Inr AT_LEAST_12_MAJOR_VERSION"
  using from_spec_version_total [of 65] from_spec_version_total [of 66]
    from_spec_version_total [of "- 4"] from_spec_version_total [of 68]
  by simp

text \<open>
  Claim C1. On an account whose \<open>data\<close> struct has the four pre-upgrade keys, the
  invariant predicate under the pre-upgrade regime returns a boolean (it does not raise),
  and that boolean is true exactly when the reference-counter invariant holds, the total
  balance \<open>free + reserved\<close> covers the existential deposit, and \<open>free\<close> covers the larger
  of the two locks. The statement holds for all integer field values, the non-negative
  ones among them.
\<close>

theorem check_account_invariants_pre_12:
  assumes "data account ''free'' = Some free"
    and "data account ''reserved'' = Some reserved"
    and "data account ''misc_frozen'' = Some misc_frozen"
    and "data account ''fee_frozen'' = Some fee_frozen"
  shows "check_account_invariants account PRE_12_MAJOR_VERSION ed =
     Inr (((providers account \<le> 1 \<and> consumers account = 0) \<or>
           (consumers account > 0 \<and> providers account = 1)) \<and>
          free + reserved \<ge> ed \<and>
          free \<ge> max misc_frozen fee_frozen)"
  using assms by (simp add: check_account_invariants_def getitem_def Let_def)

theorem check_account_invariants_pre_12_witness:
  "check_account_invariants
     \<lparr>nonce = 3, consumers = 2, providers = 1, sufficients = 0,
      data = pre_12_account_data 400 200 300 100\<rparr> PRE_12_MAJOR_VERSION 500 = Inr True \<and>
   check_account_invariants
     \<lparr>nonce = 3, consumers = 2, providers = 1, sufficients = 0,
      data = pre_12_account_data 400 200 300 100\<rparr> PRE_12_MAJOR_VERSION 601 = Inr False"
  using check_account_invariants_pre_12
      [of "\<lparr>nonce = 3, consumers = 2, providers = 1, sufficients = 0,
            data = pre_12_account_data 400 200 300 100\<rparr>" 400 200 300 100 500]
    check_account_invariants_pre_12
      [of "\<lparr>nonce = 3, consumers = 2, providers = 1, sufficients = 0,
            data = pre_12_account_data 400 200 300 100\<rparr>" 400 200 300 100 601]
  by (simp add: pre_12_account_data_def)

text \<open>
  Claim C2. On an account whose \<open>data\<close> struct has the four post-upgrade keys, the
  invariant predicate under the at-least-upgrade regime returns a boolean, true exactly
  when the reference-counter invariant holds, \<open>free\<close> alone covers the existential
  deposit, \<open>free + reserved\<close> covers \<open>frozen\<close>, and the account is not yet upgraded
  (\<open>flags < 2 ^ 127\<close>) or has nothing frozen and nothing reserved or holds a consumer
  reference. In particular the predicate is false whenever \<open>free\<close> is below the
  existential deposit, whatever \<open>free + reserved\<close> is.
\<close>

theorem check_account_invariants_at_least_12:
  assumes "data account ''free'' = Some free"
    and "data account ''reserved'' = Some reserved"
    and "data account ''frozen'' = Some frozen"
    and "data account ''flags'' = Some flags"
  shows "check_account_invariants account AT_LEAST_12_MAJOR_VERSION ed =
     Inr (((providers account \<le> 1 \<and> consumers account = 0) \<or>
           (consumers account > 0 \<and> providers account = 1)) \<and>
          free \<ge> ed \<and>
          free + reserved \<ge> frozen \<and>
          (\<not> flags \<ge> 2 ^ 127 \<or> (frozen = 0 \<and> reserved = 0) \<or> consumers account > 0)) \<and>
     (free < ed \<longrightarrow>
        check_account_invariants account AT_LEAST_12_MAJOR_VERSION ed = Inr False)"
  using assms by (simp add: check_account_invariants_def getitem_def Let_def)

theorem check_account_invariants_at_least_12_witness:
  "check_account_invariants
     \<lparr>nonce = 0, consumers = 0, providers = 1, sufficients = 0,
      data = at_least_12_account_data 499 1 0 (2 ^ 127)\<rparr> AT_LEAST_12_MAJOR_VERSION 500
     = Inr False \<and>
   check_account_invariants
     \<lparr>nonce = 0, consumers = 1, providers = 1, sufficients = 0,
      data = at_least_12_account_data 500 1 7 (2 ^ 127)\<rparr> AT_LEAST_12_MAJOR_VERSION 500
     = Inr True \<and>
   check_account_invariants
     \<lparr>nonce = 0, consumers = 0, providers = 1, sufficients = 0,
      data = at_least_12_account_data 500 1 7 (2 ^ 127)\<rparr> AT_LEAST_12_MAJOR_VERSION 500
     = Inr False"
  using check_account_invariants_at_least_12
      [of "\<lparr>nonce = 0, consumers = 0, providers = 1, sufficients = 0,
            data = at_least_12_account_data 499 1 0 (2 ^ 127)\<rparr>" 499 1 0 "2 ^ 127" 500]
    check_account_invariants_at_least_12
      [of "\<lparr>nonce = 0, consumers = 1, providers = 1, sufficients = 0,
            data = at_least_12_account_data 500 1 7 (2 ^ 127)\<rparr>" 500 1 7 "2 ^ 127" 500]
    check_account_invariants_at_least_12
      [of "\<lparr>nonce = 0, consumers = 0, providers = 1, sufficients = 0,
            data = at_least_12_account_data 500 1 7 (2 ^ 127)\<rparr>" 500 1 7 "2 ^ 127" 500]
  by (simp add: at_least_12_account_data_def)

text \<open>
  Claim C3. Under the pre-upgrade regime, on an account for which the pre-upgrade
  invariant predicate returns true, the dust predicate returns the boolean \<open>free < ed\<close>.
  Called with the at-least-upgrade regime it raises \<open>AssertionError\<close>; called on an
  account for which the pre-upgrade invariant predicate returns false it raises
  \<open>AssertionError\<close>, and when that predicate itself raises, the exception comes out.
  In none of these cases does it return a boolean.
\<close>

theorem check_if_account_would_be_dust_contract:
  "(check_account_invariants account PRE_12_MAJOR_VERSION ed = Inr True \<longrightarrow>
      (\<exists>free. data account ''free'' = Some free \<and>
         check_if_account_would_be_dust_in_12_version account PRE_12_MAJOR_VERSION ed
           = Inr (free < ed))) \<and>
   check_if_account_would_be_dust_in_12_version account AT_LEAST_12_MAJOR_VERSION ed
     = Inl (AssertionError ''Chain major version must be less than 12!'') \<and>
   (check_account_invariants account PRE_12_MAJOR_VERSION ed = Inr False \<longrightarrow>
      check_if_account_would_be_dust_in_12_version account PRE_12_MAJOR_VERSION ed
        = Inl (AssertionError ''Account does not meet pre-12 version invariants!'')) \<and>
   (check_account_invariants account PRE_12_MAJOR_VERSION ed = Inl e \<longrightarrow>
      check_if_account_would_be_dust_in_12_version account PRE_12_MAJOR_VERSION ed
        = Inl e) \<and>
   ((chain_major_version = AT_LEAST_12_MAJOR_VERSION \<or>
     check_account_invariants account PRE_12_MAJOR_VERSION ed \<noteq> Inr True) \<longrightarrow>
      (\<forall>b. check_if_account_would_be_dust_in_12_version account chain_major_version ed
             \<noteq> Inr b))"
proof -
  have ok: "check_account_invariants account PRE_12_MAJOR_VERSION ed = Inr True \<Longrightarrow>
      \<exists>free. data account ''free'' = Some free \<and>
         check_if_account_would_be_dust_in_12_version account PRE_12_MAJOR_VERSION ed
           = Inr (free < ed)"
    by (cases "data account ''free''")
      (simp_all add: check_if_account_would_be_dust_in_12_version_def
        check_account_invariants_def getitem_def)
  have wrong_regime:
    "check_if_account_would_be_dust_in_12_version account AT_LEAST_12_MAJOR_VERSION ed
       = Inl (AssertionError ''Chain major version must be less than 12!'')"
    by (simp add: check_if_account_would_be_dust_in_12_version_def)
  have invalid: "check_account_invariants account PRE_12_MAJOR_VERSION ed = Inr False \<Longrightarrow>
      check_if_account_would_be_dust_in_12_version account PRE_12_MAJOR_VERSION ed
        = Inl (AssertionError ''Account does not meet pre-12 version invariants!'')"
    by (simp add: check_if_account_would_be_dust_in_12_version_def)
  have raised: "check_account_invariants account PRE_12_MAJOR_VERSION ed = Inl e \<Longrightarrow>
      check_if_account_would_be_dust_in_12_version account PRE_12_MAJOR_VERSION ed = Inl e"
    by (simp add: check_if_account_would_be_dust_in_12_version_def)
  have no_bool: "chain_major_version = AT_LEAST_12_MAJOR_VERSION \<or>
     check_account_invariants account PRE_12_MAJOR_VERSION ed \<noteq> Inr True \<Longrightarrow>
      check_if_account_would_be_dust_in_12_version account chain_major_version ed \<noteq> Inr b"
    for b
    by (cases chain_major_version;
        cases "check_account_invariants account PRE_12_MAJOR_VERSION ed")
      (auto simp add: check_if_account_would_be_dust_in_12_version_def)
  from ok wrong_regime invalid raised no_bool show ?thesis by blast
qed

theorem check_if_account_would_be_dust_contract_witness:
  "check_if_account_would_be_dust_in_12_version
     \<lparr>nonce = 0, consumers = 0, providers = 1, sufficients = 0,
      data = pre_12_account_data 499 1 0 0\<rparr> PRE_12_MAJOR_VERSION 500 = Inr True \<and>
   check_if_account_would_be_dust_in_12_version
     \<lparr>nonce = 0, consumers = 0, providers = 1, sufficients = 0,
      data = pre_12_account_data 500 0 0 0\<rparr> PRE_12_MAJOR_VERSION 500 = Inr False \<and>
   check_if_account_would_be_dust_in_12_version
     \<lparr>nonce = 0, consumers = 0, providers = 2, sufficients = 0,
      data = pre_12_account_data 500 0 0 0\<rparr> PRE_12_MAJOR_VERSION 500
     = Inl (AssertionError ''Account does not meet pre-12 version invariants!'') \<and>
   check_if_account_would_be_dust_in_12_version
     \<lparr>nonce = 0, consumers = 0, providers = 1, sufficients = 0,
      data = at_least_12_account_data 500 0 0 0\<rparr> PRE_12_MAJOR_VERSION 500
     = Inl (KeyError ''misc_frozen'')"
proof -
  let ?a = "\<lparr>nonce = 0, consumers = 0, providers = 1, sufficients = 0,
      data = pre_12_account_data 499 1 0 0\<rparr>"
  let ?b = "\<lparr>nonce = 0, consumers = 0, providers = 1, sufficients = 0,
      data = pre_12_account_data 500 0 0 0\<rparr>"
  let ?c = "\<lparr>nonce = 0, consumers = 0, providers = 2, sufficients = 0,
      data = pre_12_account_data 500 0 0 0\<rparr>"
  let ?d = "\<lparr>nonce = 0, consumers = 0, providers = 1, sufficients = 0,
      data = at_least_12_account_data 500 0 0 0\<rparr>"
  have a: "check_account_invariants ?a PRE_12_MAJOR_VERSION 500 = Inr True"
    by (simp add: check_account_invariants_def Let_def)
  have b: "check_account_invariants ?b PRE_12_MAJOR_VERSION 500 = Inr True"
    by (simp add: check_account_invariants_def Let_def)
  have c: "check_account_invariants ?c PRE_12_MAJOR_VERSION 500 = Inr False"
    by (simp add: check_account_invariants_def Let_def)
  have d: "check_account_invariants ?d PRE_12_MAJOR_VERSION 500 = Inl (KeyError ''misc_frozen'')"
    by (simp add: check_account_invariants_def Let_def)
      (simp add: getitem_def at_least_12_account_data_def)
  have fa: "data ?a ''free'' = Some 499" and fb: "data ?b ''free'' = Some 500"
    by (simp_all add: pre_12_account_data_def)
  from check_if_account_would_be_dust_contract [of ?a 500] a fa
  have "check_if_account_would_be_dust_in_12_version ?a PRE_12_MAJOR_VERSION 500 = Inr True"
    by auto
  moreover from check_if_account_would_be_dust_contract [of ?b 500] b fb
  have "check_if_account_would_be_dust_in_12_version ?b PRE_12_MAJOR_VERSION 500 = Inr False"
    by auto
  moreover from check_if_account_would_be_dust_contract [of ?c 500] c
  have "check_if_account_would_be_dust_in_12_version ?c PRE_12_MAJOR_VERSION 500
     = Inl (AssertionError ''Account does not meet pre-12 version invariants!'')"
    by blast
  moreover from check_if_account_would_be_dust_contract [of ?d 500 "KeyError ''misc_frozen''"] d
  have "check_if_account_would_be_dust_in_12_version ?d PRE_12_MAJOR_VERSION 500
     = Inl (KeyError ''misc_frozen'')"
    by blast
  ultimately show ?thesis by blast
qed
section \<open>Properties of the scanner\<close>

lemma in_set_enumerateD: "(i, x) \<in> set (enumerate n xs) \<Longrightarrow> x \<in> set xs"
proof -
  assume "(i, x) \<in> set (enumerate n xs)"
  then have "i - n < length xs" and "xs ! (i - n) = x"
    by (auto simp add: in_set_enumerate_eq)
  then show ?thesis
    using nth_mem by blast
qed

lemma filter_false_accounts_loop_frame:
  "files (fst (filter_false_accounts_loop p v ed name items st w)) = files w \<and>
   queries (fst (filter_false_accounts_loop p v ed name items st w)) = queries w \<and>
   signed (fst (filter_false_accounts_loop p v ed name items st w)) = signed w \<and>
   submitted (fst (filter_false_accounts_loop p v ed name items st w)) = submitted w"
proof (induction items arbitrary: st w)
  case Nil
  show ?case by simp
next
  case (Cons item items)
  obtain i account_id info where item: "item = (i, account_id, info)"
    by (cases item) auto
  obtain bad cnt where st: "st = (bad, cnt)"
    by (cases st) auto
  show ?case
  proof (cases "p info v ed")
    case (Inl e)
    then show ?thesis by (simp add: item st)
  next
    case (Inr ok)
    then show ?thesis
      by (simp add: item st Let_def Cons.IH log_msg_def)
  qed
qed

lemma filter_false_accounts_loop_returns:
  assumes "\<forall>(i, account_id, info) \<in> set items. \<exists>b. p info v ed = Inr b"
  shows "snd (filter_false_accounts_loop p v ed name items (bad, cnt) w) =
     Inr (bad @ map (\<lambda>(account_id, info). (account_id, serialize info))
                  (filter (\<lambda>(account_id, info). p info v ed = Inr False) (map snd items)),
          cnt + length items)"
  using assms
proof (induction items arbitrary: bad cnt w)
  case Nil
  show ?case by simp
next
  case (Cons item items)
  obtain i account_id info where item: "item = (i, account_id, info)"
    by (cases item) auto
  from Cons.prems obtain ok where ok: "p info v ed = Inr ok"
    by (auto simp add: item)
  from Cons.prems have rest: "\<forall>(i, account_id, info) \<in> set items. \<exists>b. p info v ed = Inr b"
    by simp
  show ?case
    by (cases ok) (simp_all add: item ok Let_def Cons.IH [OF rest])
qed

lemma filter_false_accounts_frame:
  "files (fst (filter_false_accounts chain ed v p name w)) = files w \<and>
   signed (fst (filter_false_accounts chain ed v p name w)) = signed w \<and>
   submitted (fst (filter_false_accounts chain ed v p name w)) = submitted w"
proof -
  let ?items = "enumerate 0 (concat (System_Account chain (submitted w)))"
  let ?w0 = "w\<lparr>queries := queries w + 1\<rparr>"
  let ?r = "filter_false_accounts_loop p v ed name ?items ([], 0) ?w0"
  have frame: "files (fst ?r) = files w \<and> signed (fst ?r) = signed w \<and>
      submitted (fst ?r) = submitted w"
    using filter_false_accounts_loop_frame [of p v ed name ?items "([], 0)" ?w0] by simp
  show ?thesis
  proof (cases ?r)
    case (Pair w1 res)
    with frame show ?thesis
      by (cases res) (auto simp add: filter_false_accounts_def Let_def log_msg_def)
  qed
qed

lemma filter_false_accounts_returns:
  assumes "\<forall>(account_id, info) \<in> set (concat (System_Account chain (submitted w))).
             \<exists>b. p info v ed = Inr b"
  shows "snd (filter_false_accounts chain ed v p name w) =
     Inr (map (\<lambda>(account_id, info). (account_id, serialize info))
            (filter (\<lambda>(account_id, info). p info v ed = Inr False)
               (concat (System_Account chain (submitted w)))))"
    and "last (log_records (fst (filter_false_accounts chain ed v p name w))) =
     (INFO, Total_accounts_that_match_given_predicate name
        (length (concat (System_Account chain (submitted w)))))"
proof -
  let ?xs = "concat (System_Account chain (submitted w))"
  let ?items = "enumerate 0 ?xs"
  let ?w0 = "w\<lparr>queries := queries w + 1\<rparr>"
  let ?r = "filter_false_accounts_loop p v ed name ?items ([], 0) ?w0"
  have items: "\<forall>(i, account_id, info) \<in> set ?items. \<exists>b. p info v ed = Inr b"
  proof clarify
    fix i account_id info
    assume "(i, account_id, info) \<in> set ?items"
    then have "(account_id, info) \<in> set ?xs"
      by (rule in_set_enumerateD)
    with assms show "\<exists>b. p info v ed = Inr b"
      by blast
  qed
  from items filter_false_accounts_loop_returns
      [where items = ?items and p = p and v = v and ed = ed and name = name
         and bad = "[]" and cnt = 0 and w = ?w0]
  have r: "snd ?r =
     Inr (map (\<lambda>(account_id, info). (account_id, serialize info))
            (filter (\<lambda>(account_id, info). p info v ed = Inr False) ?xs), length ?xs)"
    by simp
  obtain w1 where w1: "?r = (w1, Inr (map (\<lambda>(account_id, info). (account_id, serialize info))
            (filter (\<lambda>(account_id, info). p info v ed = Inr False) ?xs), length ?xs))"
    using r by (cases ?r) auto
  show "snd (filter_false_accounts chain ed v p name w) =
     Inr (map (\<lambda>(account_id, info). (account_id, serialize info))
            (filter (\<lambda>(account_id, info). p info v ed = Inr False) ?xs))"
    unfolding filter_false_accounts_def Let_def w1 by simp
  show "last (log_records (fst (filter_false_accounts chain ed v p name w))) =
     (INFO, Total_accounts_that_match_given_predicate name (length ?xs))"
    unfolding filter_false_accounts_def Let_def w1 by (simp add: log_msg_def)
qed

lemma check_account_invariants_account_pre_12 [simp]:
  "check_account_invariants (account_pre_12 p c f r) PRE_12_MAJOR_VERSION ed =
     Inr (((p \<le> 1 \<and> c = 0) \<or> (c > 0 \<and> p = 1)) \<and> f + r \<ge> ed \<and> f \<ge> 0)"
  by (simp add: check_account_invariants_def account_pre_12_def Let_def)

text \<open>
  Claim C4, as the code has it. For every paged account sequence and every predicate
  that returns a boolean on each account of it, the scanner returns the list of
  (address, serialized record) pairs for which the predicate returned false, in the order
  the iterator yields them, and nothing else; the count of all accounts visited is the
  number in its last logging call. On the five-page source of sizes 3, 3, 3, 3, 1 with
  the predicate false for exactly the second and the ninth account, the list returned is
  those two accounts in yield order and the number logged is 13.
\<close>

theorem filter_false_accounts_list_and_logged_count:
  assumes "\<forall>(account_id, info) \<in> set (concat (System_Account chain (submitted w))).
             \<exists>b. p info v ed = Inr b"
  shows "snd (filter_false_accounts chain ed v p name w) =
     Inr (map (\<lambda>(account_id, info). (account_id, serialize info))
            (filter (\<lambda>(account_id, info). p info v ed = Inr False)
               (concat (System_Account chain (submitted w))))) \<and>
   last (log_records (fst (filter_false_accounts chain ed v p name w))) =
     (INFO, Total_accounts_that_match_given_predicate name
        (length (concat (System_Account chain (submitted w)))))"
proof (intro conjI)
  show "snd (filter_false_accounts chain ed v p name w) =
     Inr (map (\<lambda>(account_id, info). (account_id, serialize info))
            (filter (\<lambda>(account_id, info). p info v ed = Inr False)
               (concat (System_Account chain (submitted w)))))"
    using assms
    by (rule filter_false_accounts_returns(1)
          [where chain = chain and w = w and p = p and v = v and ed = ed and name = name])
  show "last (log_records (fst (filter_false_accounts chain ed v p name w))) =
     (INFO, Total_accounts_that_match_given_predicate name
        (length (concat (System_Account chain (submitted w)))))"
    using assms
    by (rule filter_false_accounts_returns(2)
          [where chain = chain and w = w and p = p and v = v and ed = ed and name = name])
qed

theorem filter_false_accounts_list_and_logged_count_witness:
  "map length example_pages = [3, 3, 3, 3, 1] \<and>
   snd (filter_false_accounts example_chain 500 PRE_12_MAJOR_VERSION
          check_account_invariants (quoted ''account invariants'') initial_world) =
     Inr [(''5A02'', account_pre_12 2 0 1000 0), (''5A09'', account_pre_12 1 0 300 100)] \<and>
   last (log_records (fst (filter_false_accounts example_chain 500 PRE_12_MAJOR_VERSION
          check_account_invariants (quoted ''account invariants'') initial_world))) =
     (INFO, Total_accounts_that_match_given_predicate (quoted ''account invariants'') 13)"
proof -
  have pages: "concat (System_Account example_chain (submitted initial_world)) =
      concat example_pages"
    by (simp add: example_chain_def)
  have returns: "\<forall>(account_id, info) \<in>
      set (concat (System_Account example_chain (submitted initial_world))).
      \<exists>b. check_account_invariants info PRE_12_MAJOR_VERSION 500 = Inr b"
    unfolding pages by (auto simp add: example_pages_def)
  have sizes: "map length example_pages = [3, 3, 3, 3, 1]"
    by (simp add: example_pages_def)
  from returns sizes filter_false_accounts_list_and_logged_count
    [where chain = example_chain and w = initial_world and p = check_account_invariants
       and v = PRE_12_MAJOR_VERSION and ed = 500 and name = "quoted ''account invariants''"]
  show ?thesis
    unfolding pages by (simp add: example_pages_def serialize_def)
qed

text \<open>
  Claim C4 as the specification words it has the scanner return the count. The value the
  scanner returns does not hold the count: the scan of the thirteen
  accounts and a scan of two accounts return the same value.
\<close>

theorem filter_false_accounts_returns_no_count:
  "snd (filter_false_accounts example_chain 500 PRE_12_MAJOR_VERSION
          check_account_invariants (quoted ''account invariants'') initial_world) =
   snd (filter_false_accounts two_account_chain 500 PRE_12_MAJOR_VERSION
          check_account_invariants (quoted ''account invariants'') initial_world) \<and>
   length (concat (System_Account example_chain (submitted initial_world))) = 13 \<and>
   length (concat (System_Account two_account_chain (submitted initial_world))) = 2"
proof -
  have pages: "concat (System_Account example_chain (submitted initial_world)) =
      concat example_pages"
    by (simp add: example_chain_def)
  have two: "concat (System_Account two_account_chain (submitted initial_world)) =
      [(''5A02'', account_pre_12 2 0 1000 0), (''5A09'', account_pre_12 1 0 300 100)]"
    by (simp add: two_account_chain_def)
  have a: "snd (filter_false_accounts example_chain 500 PRE_12_MAJOR_VERSION
          check_account_invariants (quoted ''account invariants'') initial_world) =
     Inr [(''5A02'', account_pre_12 2 0 1000 0), (''5A09'', account_pre_12 1 0 300 100)]"
    by (subst filter_false_accounts_returns(1))
      (auto simp add: pages example_pages_def serialize_def)
  have b: "snd (filter_false_accounts two_account_chain 500 PRE_12_MAJOR_VERSION
          check_account_invariants (quoted ''account invariants'') initial_world) =
     Inr [(''5A02'', account_pre_12 2 0 1000 0), (''5A09'', account_pre_12 1 0 300 100)]"
    by (subst filter_false_accounts_returns(1)) (auto simp add: two serialize_def)
  show ?thesis
    unfolding a b by (simp add: pages two) (simp add: example_pages_def)
qed

text \<open>
  Claim C5, as the code has it. The scanner collects the accounts on which the predicate
  returns false, so it is the predicate that returns false for every account that makes
  it list all accounts: the list returned then holds every account of the chain iterator
  in yield order, and the worklist of \<open>upgrade_accounts\<close>, built with that predicate, is
  the list of all addresses in yield order. With a predicate that returns true for every
  account the list returned is empty, whatever the chain holds.
\<close>

theorem filter_false_accounts_always_false_lists_all:
  "snd (filter_false_accounts chain ed v (\<lambda>x y z. Inr False) name w) =
     Inr (map (\<lambda>(account_id, info). (account_id, serialize info))
            (concat (System_Account chain (submitted w)))) \<and>
   snd (all_accounts_on_chain chain ed v w) =
     Inr (map fst (concat (System_Account chain (submitted w)))) \<and>
   snd (filter_false_accounts chain ed v (\<lambda>x y z. Inr True) name w) = Inr []"
proof -
  let ?xs = "concat (System_Account chain (submitted w))"
  have returns: "\<forall>(account_id, info) \<in> set ?xs.
      \<exists>b. (\<lambda>x y z. Inr False) info v ed = (Inr b :: error + bool)"
    by auto
  have scan: "snd (filter_false_accounts chain ed v (\<lambda>x y z. Inr False) name w) =
     Inr (map (\<lambda>(account_id, info). (account_id, serialize info)) ?xs)" for name
    using returns filter_false_accounts_returns(1)
        [where chain = chain and w = w and p = "\<lambda>x y z. Inr False" and v = v and ed = ed
           and name = name]
    by simp
  have fsts: "map fst (map (\<lambda>(account_id, info). (account_id, serialize info)) ?xs) =
      map fst ?xs"
    by (simp add: case_prod_beta)
  have "snd (all_accounts_on_chain chain ed v w) = Inr (map fst ?xs)"
    using scan [of "quoted ''all accounts''"] fsts
    by (cases "filter_false_accounts chain ed v (\<lambda>x y z. Inr False)
                 (quoted ''all accounts'') w")
      (auto simp add: all_accounts_on_chain_def)
  moreover have "snd (filter_false_accounts chain ed v (\<lambda>x y z. Inr True) name w) = Inr []"
    by (subst filter_false_accounts_returns(1)) auto
  ultimately show ?thesis
    using scan by simp
qed

theorem filter_false_accounts_always_false_lists_all_witness:
  "snd (filter_false_accounts example_chain 500 AT_LEAST_12_MAJOR_VERSION
          (\<lambda>x y z. Inr True) (quoted ''all accounts'') initial_world) = Inr [] \<and>
   snd (all_accounts_on_chain example_chain 500 AT_LEAST_12_MAJOR_VERSION initial_world) =
     Inr [''5A01'', ''5A02'', ''5A03'', ''5A04'', ''5A05'', ''5A06'', ''5A07'', ''5A08'',
          ''5A09'', ''5A10'', ''5A11'', ''5A12'', ''5A13''] \<and>
   snd (filter_false_accounts two_account_chain 500 AT_LEAST_12_MAJOR_VERSION
          (\<lambda>x y z. Inr False) (quoted ''all accounts'') initial_world) =
     Inr [(''5A02'', account_pre_12 2 0 1000 0), (''5A09'', account_pre_12 1 0 300 100)]"
  using filter_false_accounts_always_false_lists_all
      [of example_chain 500 AT_LEAST_12_MAJOR_VERSION "quoted ''all accounts''" initial_world]
    filter_false_accounts_always_false_lists_all
      [of two_account_chain 500 AT_LEAST_12_MAJOR_VERSION "quoted ''all accounts''"
         initial_world]
  by (simp add: example_chain_def two_account_chain_def example_pages_def serialize_def)

text \<open>
  Claim C5 as the specification words it takes the predicate that returns true for every
  account. With that predicate the list returned is empty,
  also on a chain that has an account.
\<close>

theorem filter_false_accounts_always_true_lists_none:
  "snd (filter_false_accounts one_account_chain 500 AT_LEAST_12_MAJOR_VERSION
          (\<lambda>x y z. Inr True) (quoted ''all accounts'') initial_world) = Inr [] \<and>
   concat (System_Account one_account_chain (submitted initial_world)) =
     [(''5A01'', account_pre_12 1 0 1000 0)]"
proof -
  have one: "concat (System_Account one_account_chain (submitted initial_world)) =
      [(''5A01'', account_pre_12 1 0 1000 0)]"
    by (simp add: one_account_chain_def)
  have "snd (filter_false_accounts one_account_chain 500 AT_LEAST_12_MAJOR_VERSION
          (\<lambda>x y z. Inr True) (quoted ''all accounts'') initial_world) = Inr []"
    by (subst filter_false_accounts_returns(1)) (auto simp add: one)
  with one show ?thesis by simp
qed

section \<open>Properties of the chunking\<close>

declare chunks_from.simps [simp del]

lemma chunks_from_concat: "0 < n \<Longrightarrow> concat (chunks_from xs n i) = drop i xs"
proof (induction xs n i rule: chunks_from.induct)
  case (1 xs n i)
  show ?case
  proof (cases "i < length xs")
    case True
    with 1 have IH: "concat (chunks_from xs n (i + n)) = drop (i + n) xs"
      by simp
    have "take n (drop i xs) @ drop (i + n) xs = take n (drop i xs) @ drop n (drop i xs)"
      by (simp add: add.commute)
    also have "\<dots> = drop i xs"
      by (rule append_take_drop_id)
    finally have split: "take n (drop i xs) @ drop (i + n) xs = drop i xs" .
    have "concat (chunks_from xs n i) = take n (drop i xs) @ concat (chunks_from xs n (i + n))"
      using True 1(2) by (subst chunks_from.simps) simp
    then show ?thesis
      unfolding IH split .
  next
    case False
    then show ?thesis
      by (subst chunks_from.simps) simp
  qed
qed

lemma chunks_from_lengths:
  "0 < n \<Longrightarrow> map length (chunks_from xs n i) =
     replicate ((length xs - i) div n) n @
     (if (length xs - i) mod n = 0 then [] else [(length xs - i) mod n])"
proof (induction xs n i rule: chunks_from.induct)
  case (1 xs n i)
  let ?m = "length xs - i"
  show ?case
  proof (cases "i < length xs")
    case False
    then show ?thesis
      by (subst chunks_from.simps) simp
  next
    case True
    with 1 have IH: "map length (chunks_from xs n (i + n)) =
       replicate ((length xs - (i + n)) div n) n @
       (if (length xs - (i + n)) mod n = 0 then [] else [(length xs - (i + n)) mod n])"
      by simp
    have unfold: "map length (chunks_from xs n i) =
        min ?m n # map length (chunks_from xs n (i + n))"
      using True 1(2) by (subst chunks_from.simps) simp
    show ?thesis
    proof (cases "n \<le> ?m")
      case True
      have sub: "length xs - (i + n) = ?m - n"
        by simp
      have d: "?m div n = Suc ((?m - n) div n)"
        using True 1(2) by (simp add: le_div_geq)
      have m: "(?m - n) mod n = ?m mod n"
        using True by (simp add: le_mod_geq)
      show ?thesis
        unfolding unfold IH sub d m using True by simp
    next
      case False
      then have z: "length xs - (i + n) = 0"
        by simp
      from False have small: "?m div n = 0" "?m mod n = ?m"
        by simp_all
      from \<open>i < length xs\<close> have pos: "?m \<noteq> 0"
        by simp
      show ?thesis
        unfolding unfold IH z small using False pos by simp
    qed
  qed
qed

lemma div_last_partial: assumes "0 < (n::nat)" shows "(q * n + n - 1) div n = q"
proof -
  have "q * n + n - 1 = q * n + (n - 1)"
    using assms by simp
  moreover have "(q * n + (n - 1)) div n = q + (n - 1) div n"
    using assms by (simp only: div_mult_self3)
  moreover have "(n - 1) div n = 0"
    using assms by simp
  ultimately show ?thesis by simp
qed

lemma div_next_multiple: assumes "0 < r" "r < (n::nat)" shows "(q * n + r + n - 1) div n = q + 1"
proof -
  have "q * n + r + n - 1 = (q + 1) * n + (r - 1)"
    using assms by (simp add: algebra_simps)
  moreover have "((q + 1) * n + (r - 1)) div n = (q + 1) + (r - 1) div n"
    using assms by (simp only: div_mult_self3)
  moreover have "(r - 1) div n = 0"
    using assms by simp
  ultimately show ?thesis by simp
qed

lemma ceil_div:
  assumes "0 < (n::nat)"
  shows "(m + n - 1) div n = m div n + (if m mod n = 0 then 0 else 1)"
proof (cases "m mod n = 0")
  case True
  define q where "q = m div n"
  have m: "m = q * n"
    using True by (auto simp add: q_def)
  have "(m + n - 1) div n = q"
    unfolding m using assms by (rule div_last_partial)
  with True show ?thesis by (simp add: q_def)
next
  case False
  define q r where "q = m div n" and "r = m mod n"
  have m: "m = q * n + r" and r: "0 < r" "r < n"
    using False assms by (simp_all add: q_def r_def)
  have "(m + n - 1) div n = q + 1"
    unfolding m using r by (rule div_next_multiple)
  with False show ?thesis by (simp add: q_def)
qed


lemma chunks_from_nth:
  "0 < n \<Longrightarrow> k < length (chunks_from xs n i) \<Longrightarrow>
   chunks_from xs n i ! k = take n (drop (i + k * n) xs)"
proof (induction xs n i arbitrary: k rule: chunks_from.induct)
  case (1 xs n i)
  show ?case
  proof (cases "i < length xs")
    case False
    with 1(3) show ?thesis
      by (subst (asm) chunks_from.simps) simp
  next
    case True
    have unfold: "chunks_from xs n i = take n (drop i xs) # chunks_from xs n (i + n)"
      using True 1(2) by (subst chunks_from.simps) simp
    show ?thesis
    proof (cases k)
      case 0
      then show ?thesis by (simp add: unfold)
    next
      case (Suc k')
      with 1(3) have "k' < length (chunks_from xs n (i + n))"
        by (simp add: unfold)
      with 1(1) True 1(2)
      have "chunks_from xs n (i + n) ! k' = take n (drop (i + n + k' * n) xs)"
        by simp
      then show ?thesis
        by (simp add: unfold Suc add.assoc)
    qed
  qed
qed

lemma chunks_from_length:
  assumes "0 < n"
  shows "length (chunks_from xs n i) = (length xs - i + n - 1) div n"
proof -
  have "length (chunks_from xs n i) = length (map length (chunks_from xs n i))"
    by simp
  also have "\<dots> = (length xs - i) div n + (if (length xs - i) mod n = 0 then 0 else 1)"
    unfolding chunks_from_lengths [OF assms] by simp
  also have "\<dots> = (length xs - i + n - 1) div n"
    using ceil_div [OF assms, of "length xs - i"] by simp
  finally show ?thesis .
qed

text \<open>
  Claim C7. For every list and every chunk size \<open>n \<ge> 1\<close> the chunking returns a list of
  chunks whose concatenation is the input; chunk \<open>k\<close> is the slice of \<open>n\<close> elements
  from position \<open>k * n\<close>, so the chunks are contiguous; their number is the ceiling of
  \<open>len / n\<close>, that is \<open>(len + n - 1) div n\<close>, the one number \<open>c\<close> with
  \<open>len \<le> c * n < len + n\<close>; no chunk is empty or longer than \<open>n\<close>, and every chunk but
  the last has exactly \<open>n\<close> elements. A list of 130 elements with chunk size 64 gives
  chunks of sizes 64, 64 and 2.
\<close>

theorem chunks_partition:
  assumes "1 \<le> n"
  shows "\<exists>cs. chunks xs n = Inr cs \<and>
     concat cs = xs \<and>
     length cs = (length xs + nat n - 1) div nat n \<and>
     length xs \<le> length cs * nat n \<and> length cs * nat n < length xs + nat n \<and>
     (\<forall>k < length cs. cs ! k = take (nat n) (drop (k * nat n) xs)) \<and>
     (\<forall>c \<in> set cs. c \<noteq> [] \<and> length c \<le> nat n) \<and>
     (\<forall>k. Suc k < length cs \<longrightarrow> length (cs ! k) = nat n) \<and>
     (length xs = 130 \<and> n = 64 \<longrightarrow> map length cs = [64, 64, 2])"
proof -
  define N where "N = nat n"
  define cs where "cs = chunks_from xs N 0"
  have N: "0 < N"
    using assms by (simp add: N_def)
  have c: "chunks xs n = Inr cs"
    using assms by (simp add: chunks_def cs_def N_def)
  have cat: "concat cs = xs"
    using chunks_from_concat [OF N, of xs 0] by (simp add: cs_def)
  have lens: "map length cs =
      replicate (length xs div N) N @ (if length xs mod N = 0 then [] else [length xs mod N])"
    using chunks_from_lengths [OF N, of xs 0] by (simp add: cs_def)
  have len: "length cs = (length xs + N - 1) div N"
    using chunks_from_length [OF N, of xs 0] by (simp add: cs_def)
  have len': "length cs = length xs div N + (if length xs mod N = 0 then 0 else 1)"
    using len ceil_div [OF N, of "length xs"] by simp
  define d m where "d = length xs div N" and "m = length xs mod N"
  have L: "length xs = d * N + m"
    by (simp add: d_def m_def)
  have r: "m < N"
    using N by (simp add: m_def)
  have lc: "length cs = d + (if m = 0 then 0 else 1)"
    using len' by (simp add: d_def m_def)
  have lower: "length xs \<le> length cs * N"
    unfolding L lc using r by (simp add: add_mult_distrib)
  have upper: "length cs * N < length xs + N"
    unfolding L lc using r N by (simp add: add_mult_distrib)
  have nth: "cs ! k = take N (drop (k * N) xs)" if "k < length cs" for k
    using chunks_from_nth [OF N, of k xs 0] that by (simp add: cs_def)
  have sizes: "c \<noteq> [] \<and> length c \<le> N" if "c \<in> set cs" for c
  proof -
    from that have "length c \<in> set (map length cs)"
      by simp
    then have "length c = N \<or> (length xs mod N \<noteq> 0 \<and> length c = length xs mod N)"
      unfolding lens by (auto split: if_splits)
    with N r show ?thesis
      by (auto simp add: m_def)
  qed
  have full: "length (cs ! k) = N" if "Suc k < length cs" for k
  proof -
    from that have k: "k < length xs div N"
      by (simp add: len' split: if_splits)
    from that have "length (cs ! k) = map length cs ! k"
      by simp
    also have "\<dots> = N"
      unfolding lens using k by (simp add: nth_append)
    finally show ?thesis .
  qed
  have example: "map length cs = [64, 64, 2]" if "length xs = 130" and "n = 64"
  proof -
    from that have "N = 64"
      by (simp add: N_def)
    with that lens show ?thesis
      by (simp add: numeral_2_eq_2)
  qed
  show ?thesis
    unfolding N_def [symmetric]
  proof (intro exI [of _ cs] conjI allI impI ballI)
    show "chunks xs n = Inr cs" by (rule c)
    show "concat cs = xs" by (rule cat)
    show "length cs = (length xs + N - 1) div N" by (rule len)
    show "length xs \<le> length cs * N" by (rule lower)
    show "length cs * N < length xs + N" by (rule upper)
    show "cs ! k = take N (drop (k * N) xs)" if "k < length cs" for k
      using that by (rule nth)
    show "c \<noteq> []" if "c \<in> set cs" for c
      using sizes [OF that] by simp
    show "length c \<le> N" if "c \<in> set cs" for c
      using sizes [OF that] by simp
    show "length (cs ! k) = N" if "Suc k < length cs" for k
      using that by (rule full)
    show "map length cs = [64, 64, 2]" if "length xs = 130 \<and> n = 64"
      using that example by blast
  qed
qed





theorem chunks_partition_witness:
  "(\<exists>cs. chunks (replicate 130 ''5A01'') 64 = Inr cs \<and> map length cs = [64, 64, 2] \<and>
      concat cs = replicate 130 ''5A01'') \<and>
   chunks [''a'', ''b'', ''c'', ''d'', ''e''] 2 = Inr [[''a'', ''b''], [''c'', ''d''], [''e'']]"
proof -
  have n: "(1::int) \<le> 64"
    by simp
  from chunks_partition [OF n, of "replicate 130 ''5A01''"]
  obtain cs where cs: "chunks (replicate 130 ''5A01'') 64 = Inr cs"
    and cat: "concat cs = replicate 130 ''5A01''"
    and ex: "length (replicate 130 ''5A01'') = 130 \<and> (64::int) = 64 \<longrightarrow>
               map length cs = [64, 64, 2]"
    by (elim exE conjE)
  from ex have lens: "map length cs = [64, 64, 2]"
    by simp
  have small: "chunks [''a'', ''b'', ''c'', ''d'', ''e''] 2 =
      Inr [[''a'', ''b''], [''c'', ''d''], [''e'']]"
    by (simp add: chunks_def chunks_from.simps)
  from cs lens cat small show ?thesis
    by (intro exI [of _ cs] conjI)
qed

section \<open>Properties of the dispatcher\<close>

lemma submit_extrinsic_receipt:
  assumes "submit chain (submitted w) ext = Inr rc"
  shows "snd (submit_extrinsic chain ext n False w) = Inr ()"
    and "signed (fst (submit_extrinsic chain ext n False w)) = signed w"
    and "submitted (fst (submit_extrinsic chain ext n False w)) = submitted w @ [ext]"
    and "set (log_records w) \<subseteq> set (log_records (fst (submit_extrinsic chain ext n False w)))"
    and "\<not> is_success rc \<Longrightarrow>
         last (log_records (fst (submit_extrinsic chain ext n False w))) =
           (WARNING, Extrinsic_failed_with_following_message (error_message rc))"
  using assms by (auto simp add: submit_extrinsic_def Let_def log_msg_def)

lemma submit_extrinsic_raise:
  assumes "submit chain (submitted w) ext = Inl e"
  shows "snd (submit_extrinsic chain ext n False w) =
           Inl (AttributeError
             ''module substrateinterface has no attribute SubstrateRequestException'')"
    and "signed (fst (submit_extrinsic chain ext n False w)) = signed w"
    and "submitted (fst (submit_extrinsic chain ext n False w)) = submitted w @ [ext]"
    and "log_records (fst (submit_extrinsic chain ext n False w)) =
           log_records w @ [(DEBUG, Extrinsic_to_be_sent ext)]"
  using assms
  by (simp_all add: submit_extrinsic_def Let_def log_msg_def
        substrateinterface_SubstrateRequestException_def)

lemma submit_extrinsic_no_failed_warning:
  "(lvl, Failed_to_submit_extrinsic m)
     \<in> set (log_records (fst (submit_extrinsic chain ext n d w))) \<Longrightarrow>
   (lvl, Failed_to_submit_extrinsic m) \<in> set (log_records w)"
  by (auto simp add: submit_extrinsic_def Let_def log_msg_def
        substrateinterface_SubstrateRequestException_def split: sum.splits if_splits)

lemma submit_extrinsic_log_mono:
  "set (log_records w) \<subseteq> set (log_records (fst (submit_extrinsic chain ext n d w)))"
  by (auto simp add: submit_extrinsic_def Let_def log_msg_def
        substrateinterface_SubstrateRequestException_def split: sum.splits)

lemma batch_transfer_loop_Cons_receipt:
  assumes "\<not> args_dry_run input_args"
    and "submit chain (submitted w) (transfer_extrinsic amount kp c) = Inr rc"
  shows "\<exists>w'. batch_transfer_loop chain input_args (c # rest) amount kp w =
               batch_transfer_loop chain input_args rest amount kp w' \<and>
          signed w' = signed w @ [transfer_extrinsic amount kp c] \<and>
          submitted w' = submitted w @ [transfer_extrinsic amount kp c] \<and>
          set (log_records w) \<subseteq> set (log_records w') \<and>
          (\<not> is_success rc \<longrightarrow>
             (WARNING, Extrinsic_failed_with_following_message (error_message rc))
               \<in> set (log_records w'))"
proof -
  let ?E = "transfer_extrinsic amount kp c"
  let ?w2 = "log_msg INFO (About_to_send_transfers (length c) amount kp c)
               (w\<lparr>signed := signed w @ [?E]\<rparr>)"
  let ?r = "submit_extrinsic chain ?E (length c) False ?w2"
  have sub: "submit chain (submitted ?w2) ?E = Inr rc"
    using assms(2) by (simp add: log_msg_def)
  note facts = submit_extrinsic_receipt [OF sub, where n = "length c"]
  have r: "?r = (fst ?r, Inr ())"
    using facts(1) by (cases ?r) simp
  have step: "batch_transfer_loop chain input_args (c # rest) amount kp w =
      batch_transfer_loop chain input_args rest amount kp (fst ?r)"
    using assms(1) by (simp add: Let_def) (subst r, simp)
  have sg: "signed (fst ?r) = signed w @ [?E]"
    using facts(2) by (simp add: log_msg_def)
  have sb: "submitted (fst ?r) = submitted w @ [?E]"
    using facts(3) by (simp add: log_msg_def)
  have lg: "set (log_records w) \<subseteq> set (log_records (fst ?r))"
    using facts(4) by (auto simp add: log_msg_def)
  have warn: "(WARNING, Extrinsic_failed_with_following_message (error_message rc))
               \<in> set (log_records (fst ?r))" if "\<not> is_success rc"
  proof -
    have "log_records (fst ?r) \<noteq> []"
      using facts(4) by (auto simp add: log_msg_def)
    then have "last (log_records (fst ?r)) \<in> set (log_records (fst ?r))"
      by (rule last_in_set)
    with facts(5) [OF that] show ?thesis
      by simp
  qed
  from step sg sb lg warn show ?thesis
    by blast
qed

lemma batch_transfer_loop_Cons_raise:
  assumes "\<not> args_dry_run input_args"
    and "submit chain (submitted w) (transfer_extrinsic amount kp c) = Inl e"
  shows "snd (batch_transfer_loop chain input_args (c # rest) amount kp w) =
           Inl (AttributeError
             ''module substrateinterface has no attribute SubstrateRequestException'')"
    and "signed (fst (batch_transfer_loop chain input_args (c # rest) amount kp w)) =
           signed w @ [transfer_extrinsic amount kp c]"
    and "submitted (fst (batch_transfer_loop chain input_args (c # rest) amount kp w)) =
           submitted w @ [transfer_extrinsic amount kp c]"
    and "last (log_records (fst (batch_transfer_loop chain input_args (c # rest) amount kp w)))
           = (DEBUG, Extrinsic_to_be_sent (transfer_extrinsic amount kp c))"
proof -
  let ?E = "transfer_extrinsic amount kp c"
  let ?A = "AttributeError
             ''module substrateinterface has no attribute SubstrateRequestException''"
  let ?w2 = "log_msg INFO (About_to_send_transfers (length c) amount kp c)
               (w\<lparr>signed := signed w @ [?E]\<rparr>)"
  let ?r = "submit_extrinsic chain ?E (length c) False ?w2"
  have sub: "submit chain (submitted ?w2) ?E = Inl e"
    using assms(2) by (simp add: log_msg_def)
  note facts = submit_extrinsic_raise [OF sub, where n = "length c"]
  have r: "?r = (fst ?r, Inl ?A)"
    using facts(1) by (cases ?r) simp
  have step: "batch_transfer_loop chain input_args (c # rest) amount kp w = (fst ?r, Inl ?A)"
    using assms(1) by (simp add: Let_def) (subst r, simp)
  show "snd (batch_transfer_loop chain input_args (c # rest) amount kp w) = Inl ?A"
    unfolding step by simp
  show "signed (fst (batch_transfer_loop chain input_args (c # rest) amount kp w)) =
           signed w @ [?E]"
    unfolding step using facts(2) by (simp add: log_msg_def)
  show "submitted (fst (batch_transfer_loop chain input_args (c # rest) amount kp w)) =
           submitted w @ [?E]"
    unfolding step using facts(3) by (simp add: log_msg_def)
  show "last (log_records (fst (batch_transfer_loop chain input_args (c # rest) amount kp w)))
           = (DEBUG, Extrinsic_to_be_sent ?E)"
    unfolding step using facts(4) by simp
qed

lemma batch_transfer_loop_no_failed_warning:
  "(lvl, Failed_to_submit_extrinsic m)
     \<in> set (log_records (fst (batch_transfer_loop chain input_args cs amount kp w))) \<Longrightarrow>
   (lvl, Failed_to_submit_extrinsic m) \<in> set (log_records w)"
proof (induction cs arbitrary: w)
  case Nil
  then show ?case by simp
next
  case (Cons c rest)
  let ?E = "transfer_extrinsic amount kp c"
  let ?w2 = "log_msg INFO (About_to_send_transfers (length c) amount kp c)
               (w\<lparr>signed := signed w @ [?E]\<rparr>)"
  let ?r = "submit_extrinsic chain ?E (length c) (args_dry_run input_args) ?w2"
  have earlier: "(lvl, Failed_to_submit_extrinsic m) \<in> set (log_records (fst ?r)) \<Longrightarrow>
      (lvl, Failed_to_submit_extrinsic m) \<in> set (log_records w)"
    using submit_extrinsic_no_failed_warning
      [of lvl m chain ?E "length c" "args_dry_run input_args" ?w2]
    by (auto simp add: log_msg_def)
  obtain w3 res where r: "?r = (w3, res)"
    by (cases ?r)
  show ?case
  proof (cases res)
    case (Inl e)
    with Cons.prems earlier show ?thesis
      by (simp add: Let_def r)
  next
    case (Inr u)
    with Cons.prems have "(lvl, Failed_to_submit_extrinsic m)
        \<in> set (log_records (fst (batch_transfer_loop chain input_args rest amount kp w3)))"
      by (simp add: Let_def r)
    then have "(lvl, Failed_to_submit_extrinsic m) \<in> set (log_records w3)"
      by (rule Cons.IH)
    with earlier show ?thesis
      by (simp add: r)
  qed
qed

lemma batch_transfer_loop_all_included:
  assumes "\<not> args_dry_run input_args"
    and "\<forall>k<length cs. \<exists>rc.
           submit chain (submitted w @ map (transfer_extrinsic amount kp) (take k cs))
             (transfer_extrinsic amount kp (cs ! k)) = Inr rc"
  shows "snd (batch_transfer_loop chain input_args cs amount kp w) = Inr () \<and>
     signed (fst (batch_transfer_loop chain input_args cs amount kp w)) =
       signed w @ map (transfer_extrinsic amount kp) cs \<and>
     submitted (fst (batch_transfer_loop chain input_args cs amount kp w)) =
       submitted w @ map (transfer_extrinsic amount kp) cs \<and>
     set (log_records w) \<subseteq>
       set (log_records (fst (batch_transfer_loop chain input_args cs amount kp w))) \<and>
     (\<forall>k<length cs. \<forall>rc.
        submit chain (submitted w @ map (transfer_extrinsic amount kp) (take k cs))
          (transfer_extrinsic amount kp (cs ! k)) = Inr rc \<and> \<not> is_success rc \<longrightarrow>
        (WARNING, Extrinsic_failed_with_following_message (error_message rc))
          \<in> set (log_records (fst (batch_transfer_loop chain input_args cs amount kp w))))"
  using assms(2)
proof (induction cs arbitrary: w)
  case Nil
  show ?case by simp
next
  case (Cons c rest)
  let ?E = "transfer_extrinsic amount kp"
  from Cons.prems have "\<exists>rc. submit chain (submitted w @ map ?E (take 0 (c # rest)))
      (?E ((c # rest) ! 0)) = Inr rc"
    by blast
  then obtain rc0 where rc0: "submit chain (submitted w) (?E c) = Inr rc0"
    by auto
  from batch_transfer_loop_Cons_receipt [OF assms(1) rc0, of rest]
  obtain w' where step: "batch_transfer_loop chain input_args (c # rest) amount kp w =
               batch_transfer_loop chain input_args rest amount kp w'"
    and sg: "signed w' = signed w @ [?E c]"
    and sb: "submitted w' = submitted w @ [?E c]"
    and lg: "set (log_records w) \<subseteq> set (log_records w')"
    and warn: "\<not> is_success rc0 \<longrightarrow>
             (WARNING, Extrinsic_failed_with_following_message (error_message rc0))
               \<in> set (log_records w')"
    by (elim exE conjE)
  have hist: "submitted w' @ map ?E (take k rest) =
      submitted w @ map ?E (take (Suc k) (c # rest))" for k
    by (simp add: sb)
  have prems': "\<forall>k<length rest. \<exists>rc.
      submit chain (submitted w' @ map ?E (take k rest)) (?E (rest ! k)) = Inr rc"
  proof (intro allI impI)
    fix k assume "k < length rest"
    then have "Suc k < length (c # rest)" by simp
    with Cons.prems have "\<exists>rc. submit chain (submitted w @ map ?E (take (Suc k) (c # rest)))
        (?E ((c # rest) ! Suc k)) = Inr rc"
      by blast
    then show "\<exists>rc. submit chain (submitted w' @ map ?E (take k rest)) (?E (rest ! k)) = Inr rc"
      unfolding hist by simp
  qed
  note IH = Cons.IH [OF prems']
  let ?L = "batch_transfer_loop chain input_args rest amount kp w'"
  have warns: "(WARNING, Extrinsic_failed_with_following_message (error_message rc))
          \<in> set (log_records (fst ?L))"
    if k: "k < length (c # rest)"
      and rc: "submit chain (submitted w @ map ?E (take k (c # rest))) (?E ((c # rest) ! k)) = Inr rc"
      and bad: "\<not> is_success rc"
    for k rc
  proof (cases k)
    case 0
    with rc rc0 have "rc = rc0" by simp
    with warn bad IH show ?thesis by blast
  next
    case (Suc j)
    with k have j: "j < length rest" by simp
    from rc have "submit chain (submitted w' @ map ?E (take j rest)) (?E (rest ! j)) = Inr rc"
      unfolding hist Suc by simp
    with IH j bad show ?thesis by blast
  qed
  show ?case
    unfolding step
  proof (intro conjI allI impI)
    show "snd ?L = Inr ()" using IH by blast
    show "signed (fst ?L) = signed w @ map ?E (c # rest)"
      using IH by (simp add: sg)
    show "submitted (fst ?L) = submitted w @ map ?E (c # rest)"
      using IH by (simp add: sb)
    show "set (log_records w) \<subseteq> set (log_records (fst ?L))"
      using IH lg by blast
    show "(WARNING, Extrinsic_failed_with_following_message (error_message rc))
          \<in> set (log_records (fst ?L))"
      if "k < length (c # rest)"
        and "submit chain (submitted w @ map ?E (take k (c # rest))) (?E ((c # rest) ! k)) = Inr rc
             \<and> \<not> is_success rc"
      for k rc
      using that warns by blast
  qed
qed


lemma batch_transfer_loop_aborts:
  assumes "\<not> args_dry_run input_args"
    and "k < length cs"
    and "\<forall>j<k. \<exists>rc.
           submit chain (submitted w @ map (transfer_extrinsic amount kp) (take j cs))
             (transfer_extrinsic amount kp (cs ! j)) = Inr rc"
    and "submit chain (submitted w @ map (transfer_extrinsic amount kp) (take k cs))
           (transfer_extrinsic amount kp (cs ! k)) = Inl e"
  shows "snd (batch_transfer_loop chain input_args cs amount kp w) =
       Inl (AttributeError
         ''module substrateinterface has no attribute SubstrateRequestException'') \<and>
     signed (fst (batch_transfer_loop chain input_args cs amount kp w)) =
       signed w @ map (transfer_extrinsic amount kp) (take (Suc k) cs) \<and>
     submitted (fst (batch_transfer_loop chain input_args cs amount kp w)) =
       submitted w @ map (transfer_extrinsic amount kp) (take (Suc k) cs) \<and>
     last (log_records (fst (batch_transfer_loop chain input_args cs amount kp w))) =
       (DEBUG, Extrinsic_to_be_sent (transfer_extrinsic amount kp (cs ! k)))"
  using assms(2-4)
proof (induction cs arbitrary: w k)
  case Nil
  then show ?case by simp
next
  case (Cons c rest)
  let ?E = "transfer_extrinsic amount kp"
  show ?case
  proof (cases k)
    case 0
    with Cons.prems(3) have raise: "submit chain (submitted w) (?E c) = Inl e"
      by simp
    note facts = batch_transfer_loop_Cons_raise [OF assms(1) raise, where rest = rest]
    from facts show ?thesis
      unfolding 0 by simp
  next
    case (Suc k')
    from Cons.prems(2) Suc
    have "\<exists>rc. submit chain (submitted w @ map ?E (take 0 (c # rest)))
        (?E ((c # rest) ! 0)) = Inr rc"
      by blast
    then obtain rc0 where rc0: "submit chain (submitted w) (?E c) = Inr rc0"
      by auto
    from batch_transfer_loop_Cons_receipt [OF assms(1) rc0, of rest]
    obtain w' where step: "batch_transfer_loop chain input_args (c # rest) amount kp w =
                 batch_transfer_loop chain input_args rest amount kp w'"
      and sg: "signed w' = signed w @ [?E c]"
      and sb: "submitted w' = submitted w @ [?E c]"
      by (elim exE conjE)
    have hist: "submitted w' @ map ?E (take j rest) =
        submitted w @ map ?E (take (Suc j) (c # rest))" for j
      by (simp add: sb)
    have k': "k' < length rest"
      using Cons.prems(1) Suc by simp
    have before: "\<forall>j<k'. \<exists>rc.
        submit chain (submitted w' @ map ?E (take j rest)) (?E (rest ! j)) = Inr rc"
    proof (intro allI impI)
      fix j assume "j < k'"
      then have "Suc j < k" by (simp add: Suc)
      with Cons.prems(2)
      have "\<exists>rc. submit chain (submitted w @ map ?E (take (Suc j) (c # rest)))
          (?E ((c # rest) ! Suc j)) = Inr rc"
        by blast
      then show "\<exists>rc. submit chain (submitted w' @ map ?E (take j rest)) (?E (rest ! j)) = Inr rc"
        unfolding hist by simp
    qed
    have at: "submit chain (submitted w' @ map ?E (take k' rest)) (?E (rest ! k')) = Inl e"
      using Cons.prems(3) unfolding hist Suc by simp
    note IH = Cons.IH [OF k' before at]
    show ?thesis
      unfolding step Suc using IH by (simp add: sg sb)
  qed
qed


text \<open>
  Claim C8, as the code runs. In a run that is not a dry run, for the chunks the
  dispatcher iterates over: when every submission ends in a receipt, whether the receipt
  reports success or failure, the dispatcher call returns, every chunk has been built,
  signed and submitted in order, and each receipt that reports failure has left a warning
  with the chain's error message in the log. When the submission of chunk \<open>k\<close> is the
  first to raise, the dispatcher call is aborted and exactly the chunks up to \<open>k\<close> have
  been built and submitted; but the exception that reaches the caller is the
  \<open>AttributeError\<close> of the \<open>except\<close> clause, not the exception of the submission, and the
  last logging call is the debug message before the submission. No run logs the warning
  that the submission failed.
\<close>

theorem batch_transfer_failure_policy:
  assumes "\<not> args_dry_run input_args"
    and "chunks accounts (args_transfer_calls_in_batch input_args) = Inr cs"
  shows "((\<forall>k<length cs. \<exists>rc.
             submit chain (submitted w @ map (transfer_extrinsic amount kp) (take k cs))
               (transfer_extrinsic amount kp (cs ! k)) = Inr rc) \<longrightarrow>
          snd (batch_transfer chain input_args accounts amount kp w) = Inr () \<and>
          signed (fst (batch_transfer chain input_args accounts amount kp w)) =
            signed w @ map (transfer_extrinsic amount kp) cs \<and>
          submitted (fst (batch_transfer chain input_args accounts amount kp w)) =
            submitted w @ map (transfer_extrinsic amount kp) cs \<and>
          (\<forall>k<length cs. \<forall>rc.
             submit chain (submitted w @ map (transfer_extrinsic amount kp) (take k cs))
               (transfer_extrinsic amount kp (cs ! k)) = Inr rc \<and> \<not> is_success rc \<longrightarrow>
             (WARNING, Extrinsic_failed_with_following_message (error_message rc))
               \<in> set (log_records
                        (fst (batch_transfer chain input_args accounts amount kp w))))) \<and>
         (\<forall>k e. k < length cs \<and>
            (\<forall>j<k. \<exists>rc.
               submit chain (submitted w @ map (transfer_extrinsic amount kp) (take j cs))
                 (transfer_extrinsic amount kp (cs ! j)) = Inr rc) \<and>
            submit chain (submitted w @ map (transfer_extrinsic amount kp) (take k cs))
              (transfer_extrinsic amount kp (cs ! k)) = Inl e \<longrightarrow>
            snd (batch_transfer chain input_args accounts amount kp w) =
              Inl (AttributeError
                ''module substrateinterface has no attribute SubstrateRequestException'') \<and>
            signed (fst (batch_transfer chain input_args accounts amount kp w)) =
              signed w @ map (transfer_extrinsic amount kp) (take (Suc k) cs) \<and>
            submitted (fst (batch_transfer chain input_args accounts amount kp w)) =
              submitted w @ map (transfer_extrinsic amount kp) (take (Suc k) cs) \<and>
            last (log_records (fst (batch_transfer chain input_args accounts amount kp w))) =
              (DEBUG, Extrinsic_to_be_sent (transfer_extrinsic amount kp (cs ! k)))) \<and>
         (\<forall>lvl m. (lvl, Failed_to_submit_extrinsic m)
              \<in> set (log_records
                       (fst (batch_transfer chain input_args accounts amount kp w))) \<longrightarrow>
            (lvl, Failed_to_submit_extrinsic m) \<in> set (log_records w))"
proof -
  have loop: "batch_transfer chain input_args accounts amount kp w =
      batch_transfer_loop chain input_args cs amount kp w"
    by (simp add: batch_transfer_def assms(2))
  show ?thesis
    unfolding loop
  proof (intro conjI allI impI)
    assume all: "\<forall>k<length cs. \<exists>rc.
             submit chain (submitted w @ map (transfer_extrinsic amount kp) (take k cs))
               (transfer_extrinsic amount kp (cs ! k)) = Inr rc"
    note A = batch_transfer_loop_all_included [OF assms(1) all]
    show "snd (batch_transfer_loop chain input_args cs amount kp w) = Inr ()"
      using A by (rule conjunct1)
    show "signed (fst (batch_transfer_loop chain input_args cs amount kp w)) =
            signed w @ map (transfer_extrinsic amount kp) cs"
      using A by blast
    show "submitted (fst (batch_transfer_loop chain input_args cs amount kp w)) =
            submitted w @ map (transfer_extrinsic amount kp) cs"
      using A by blast
    show "(WARNING, Extrinsic_failed_with_following_message (error_message rc))
               \<in> set (log_records (fst (batch_transfer_loop chain input_args cs amount kp w)))"
      if "k < length cs"
        and "submit chain (submitted w @ map (transfer_extrinsic amount kp) (take k cs))
               (transfer_extrinsic amount kp (cs ! k)) = Inr rc \<and> \<not> is_success rc"
      for k rc
      using A that by blast
  next
    fix k e
    assume B: "k < length cs \<and>
            (\<forall>j<k. \<exists>rc.
               submit chain (submitted w @ map (transfer_extrinsic amount kp) (take j cs))
                 (transfer_extrinsic amount kp (cs ! j)) = Inr rc) \<and>
            submit chain (submitted w @ map (transfer_extrinsic amount kp) (take k cs))
              (transfer_extrinsic amount kp (cs ! k)) = Inl e"
    then have k: "k < length cs"
      and before: "\<forall>j<k. \<exists>rc.
               submit chain (submitted w @ map (transfer_extrinsic amount kp) (take j cs))
                 (transfer_extrinsic amount kp (cs ! j)) = Inr rc"
      and at: "submit chain (submitted w @ map (transfer_extrinsic amount kp) (take k cs))
              (transfer_extrinsic amount kp (cs ! k)) = Inl e"
      by blast+
    note R = batch_transfer_loop_aborts [OF assms(1) k before at]
    show "snd (batch_transfer_loop chain input_args cs amount kp w) =
            Inl (AttributeError
              ''module substrateinterface has no attribute SubstrateRequestException'')"
      using R by (rule conjunct1)
    show "signed (fst (batch_transfer_loop chain input_args cs amount kp w)) =
              signed w @ map (transfer_extrinsic amount kp) (take (Suc k) cs)"
      using R by blast
    show "submitted (fst (batch_transfer_loop chain input_args cs amount kp w)) =
              submitted w @ map (transfer_extrinsic amount kp) (take (Suc k) cs)"
      using R by blast
    show "last (log_records (fst (batch_transfer_loop chain input_args cs amount kp w))) =
              (DEBUG, Extrinsic_to_be_sent (transfer_extrinsic amount kp (cs ! k)))"
      using R by blast
  next
    fix lvl m
    assume "(lvl, Failed_to_submit_extrinsic m)
              \<in> set (log_records (fst (batch_transfer_loop chain input_args cs amount kp w)))"
    then show "(lvl, Failed_to_submit_extrinsic m) \<in> set (log_records w)"
      by (rule batch_transfer_loop_no_failed_warning)
  qed
qed

theorem batch_transfer_failure_policy_witness:
  "snd (batch_transfer rejecting_chain example_args
          [''5A01'', ''5A02'', ''5A03'', ''5A04'', ''5A05''] 500 (create_from_uri ''//Alice'')
          initial_world) = Inr () \<and>
   signed (fst (batch_transfer rejecting_chain example_args
          [''5A01'', ''5A02'', ''5A03'', ''5A04'', ''5A05''] 500 (create_from_uri ''//Alice'')
          initial_world)) =
     [transfer_extrinsic 500 (create_from_uri ''//Alice'') [''5A01'', ''5A02''],
      transfer_extrinsic 500 (create_from_uri ''//Alice'') [''5A03'', ''5A04''],
      transfer_extrinsic 500 (create_from_uri ''//Alice'') [''5A05'']] \<and>
   (WARNING, Extrinsic_failed_with_following_message ''Token.FundsUnavailable'')
     \<in> set (log_records (fst (batch_transfer rejecting_chain example_args
          [''5A01'', ''5A02'', ''5A03'', ''5A04'', ''5A05''] 500 (create_from_uri ''//Alice'')
          initial_world))) \<and>
   submit failing_chain
     [transfer_extrinsic 500 (create_from_uri ''//Alice'') [''5A01'', ''5A02'']]
     (transfer_extrinsic 500 (create_from_uri ''//Alice'') [''5A03'', ''5A04'']) =
     Inl (SubstrateRequestException ''connection closed'') \<and>
   snd (batch_transfer failing_chain example_args
          [''5A01'', ''5A02'', ''5A03'', ''5A04'', ''5A05''] 500 (create_from_uri ''//Alice'')
          initial_world) =
     Inl (AttributeError
            ''module substrateinterface has no attribute SubstrateRequestException'') \<and>
   signed (fst (batch_transfer failing_chain example_args
          [''5A01'', ''5A02'', ''5A03'', ''5A04'', ''5A05''] 500 (create_from_uri ''//Alice'')
          initial_world)) =
     [transfer_extrinsic 500 (create_from_uri ''//Alice'') [''5A01'', ''5A02''],
      transfer_extrinsic 500 (create_from_uri ''//Alice'') [''5A03'', ''5A04'']] \<and>
   last (log_records (fst (batch_transfer failing_chain example_args
          [''5A01'', ''5A02'', ''5A03'', ''5A04'', ''5A05''] 500 (create_from_uri ''//Alice'')
          initial_world))) =
     (DEBUG, Extrinsic_to_be_sent
        (transfer_extrinsic 500 (create_from_uri ''//Alice'') [''5A03'', ''5A04''])) \<and>
   (WARNING, Failed_to_submit_extrinsic ''connection closed'')
     \<notin> set (log_records (fst (batch_transfer failing_chain example_args
          [''5A01'', ''5A02'', ''5A03'', ''5A04'', ''5A05''] 500 (create_from_uri ''//Alice'')
          initial_world)))"
proof -
  let ?accs = "[''5A01'', ''5A02'', ''5A03'', ''5A04'', ''5A05'']"
  let ?cs = "[[''5A01'', ''5A02''], [''5A03'', ''5A04''], [''5A05'']]"
  let ?kp = "create_from_uri ''//Alice''"
  let ?E = "transfer_extrinsic 500 ?kp"
  let ?A = "AttributeError
              ''module substrateinterface has no attribute SubstrateRequestException''"
  have dry: "\<not> args_dry_run example_args"
    by (simp add: example_args_def)
  have cs: "chunks ?accs (args_transfer_calls_in_batch example_args) = Inr ?cs"
    by (simp add: example_args_def chunks_def chunks_from.simps)
  have empty: "submitted initial_world = []" "signed initial_world = []"
    "log_records initial_world = []"
    by (simp_all add: initial_world_def)
  note rejecting = batch_transfer_failure_policy
    [OF dry cs, where chain = rejecting_chain and w = initial_world and amount = 500
       and kp = ?kp, THEN conjunct1]
  have all: "\<forall>k<length ?cs. \<exists>rc.
      submit rejecting_chain (submitted initial_world @ map ?E (take k ?cs)) (?E (?cs ! k))
        = Inr rc"
    by (simp add: rejecting_chain_def)
  note A = mp [OF rejecting all]
  have second: "submit rejecting_chain (submitted initial_world @ map ?E (take 1 ?cs))
      (?E (?cs ! 1)) = Inr (included False) \<and> \<not> is_success (included False)"
    by (simp add: rejecting_chain_def empty included_def)
  have one: "(1::nat) < length ?cs"
    by simp
  from A have warn: "\<forall>k<length ?cs. \<forall>rc.
      submit rejecting_chain (submitted initial_world @ map ?E (take k ?cs)) (?E (?cs ! k))
        = Inr rc \<and> \<not> is_success rc \<longrightarrow>
      (WARNING, Extrinsic_failed_with_following_message (error_message rc))
        \<in> set (log_records (fst (batch_transfer rejecting_chain example_args ?accs 500 ?kp
             initial_world)))"
    by (elim conjE)
  from warn one second
  have "(WARNING, Extrinsic_failed_with_following_message (error_message (included False)))
        \<in> set (log_records (fst (batch_transfer rejecting_chain example_args ?accs 500 ?kp
             initial_world)))"
    by blast
  then have w1: "(WARNING, Extrinsic_failed_with_following_message ''Token.FundsUnavailable'')
        \<in> set (log_records (fst (batch_transfer rejecting_chain example_args ?accs 500 ?kp
             initial_world)))"
    by (simp add: included_def)
  from A have r1: "snd (batch_transfer rejecting_chain example_args ?accs 500 ?kp
      initial_world) = Inr ()"
    by (elim conjE)
  from A have "signed (fst (batch_transfer rejecting_chain example_args ?accs 500 ?kp
      initial_world)) = signed initial_world @ map ?E ?cs"
    by (elim conjE)
  then have s1: "signed (fst (batch_transfer rejecting_chain example_args ?accs 500 ?kp
      initial_world)) = map ?E ?cs"
    by (simp add: empty)
  note policy = batch_transfer_failure_policy
    [OF dry cs, where chain = failing_chain and w = initial_world and amount = 500
       and kp = ?kp, THEN conjunct2]
  note failing = policy
    [THEN conjunct1, THEN spec [of _ 1],
     THEN spec [of _ "SubstrateRequestException ''connection closed''"], THEN mp]
  have raised: "submit failing_chain [?E [''5A01'', ''5A02'']] (?E [''5A03'', ''5A04'']) =
      Inl (SubstrateRequestException ''connection closed'')"
    by (simp add: failing_chain_def)
  have at: "1 < length ?cs \<and>
      (\<forall>j<1. \<exists>rc. submit failing_chain (submitted initial_world @ map ?E (take j ?cs))
          (?E (?cs ! j)) = Inr rc) \<and>
      submit failing_chain (submitted initial_world @ map ?E (take 1 ?cs)) (?E (?cs ! 1))
        = Inl (SubstrateRequestException ''connection closed'')"
    by (simp add: failing_chain_def empty)
  note B = failing [OF at]
  from B have r2: "snd (batch_transfer failing_chain example_args ?accs 500 ?kp
      initial_world) = Inl ?A"
    by (elim conjE)
  from B have "signed (fst (batch_transfer failing_chain example_args ?accs 500 ?kp
      initial_world)) = signed initial_world @ map ?E (take (Suc 1) ?cs)"
    by (elim conjE)
  then have s2: "signed (fst (batch_transfer failing_chain example_args ?accs 500 ?kp
      initial_world)) = [?E [''5A01'', ''5A02''], ?E [''5A03'', ''5A04'']]"
    by (simp add: empty)
  from B have "last (log_records (fst (batch_transfer failing_chain example_args ?accs 500
      ?kp initial_world))) = (DEBUG, Extrinsic_to_be_sent (?E (?cs ! 1)))"
    by (elim conjE)
  then have l2: "last (log_records (fst (batch_transfer failing_chain example_args ?accs 500
      ?kp initial_world))) = (DEBUG, Extrinsic_to_be_sent (?E [''5A03'', ''5A04'']))"
    by simp
  note never = policy [THEN conjunct2, THEN spec [of _ WARNING],
    THEN spec [of _ "''connection closed''"]]
  have n2: "(WARNING, Failed_to_submit_extrinsic ''connection closed'')
      \<notin> set (log_records (fst (batch_transfer failing_chain example_args ?accs 500 ?kp
             initial_world)))"
  proof
    assume "(WARNING, Failed_to_submit_extrinsic ''connection closed'')
      \<in> set (log_records (fst (batch_transfer failing_chain example_args ?accs 500 ?kp
             initial_world)))"
    with never have "(WARNING, Failed_to_submit_extrinsic ''connection closed'')
      \<in> set (log_records initial_world)"
      by (rule mp)
    then show False
      by (simp add: empty)
  qed
  from r1 s1 w1 raised r2 s2 l2 n2 show ?thesis
    by simp
qed

section \<open>Properties of the artifact writer\<close>

lemma written_files_log_msg [simp]:
  "written_files (log_msg lvl m w) = written_files w @ file_written m"
  by (simp add: written_files_def log_msg_def)

lemma files_log_msg [simp]: "files (log_msg lvl m w) = files w"
  by (simp add: log_msg_def)

lemma submitted_log_msg [simp]: "submitted (log_msg lvl m w) = submitted w"
  by (simp add: log_msg_def)

lemma written_files_update [simp]:
  "written_files (w\<lparr>queries := q\<rparr>) = written_files w"
  "written_files (w\<lparr>signed := sg\<rparr>) = written_files w"
  "written_files (w\<lparr>submitted := sb\<rparr>) = written_files w"
  "written_files (w\<lparr>files := fs\<rparr>) = written_files w"
  by (simp_all add: written_files_def)

lemma filter_false_accounts_loop_written:
  "written_files (fst (filter_false_accounts_loop p v ed name items st w)) = written_files w"
proof (induction items arbitrary: st w)
  case Nil
  show ?case by simp
next
  case (Cons item items)
  obtain i account_id info where item: "item = (i, account_id, info)"
    by (cases item) auto
  obtain bad cnt where st: "st = (bad, cnt)"
    by (cases st) auto
  show ?case
  proof (cases "p info v ed")
    case (Inl e)
    then show ?thesis by (simp add: item st)
  next
    case (Inr ok)
    then show ?thesis
      by (simp add: item st Let_def Cons.IH)
  qed
qed

lemma filter_false_accounts_loop_result:
  "snd (filter_false_accounts_loop p v ed name items st w) =
   snd (filter_false_accounts_loop p v ed name items st w')"
proof (induction items arbitrary: st w w')
  case Nil
  show ?case by simp
next
  case (Cons item items)
  obtain i account_id info where item: "item = (i, account_id, info)"
    by (cases item) auto
  obtain bad cnt where st: "st = (bad, cnt)"
    by (cases st) auto
  show ?case
  proof (cases "p info v ed")
    case (Inl e)
    then show ?thesis by (simp add: item st)
  next
    case (Inr ok)
    then show ?thesis
      by (auto simp add: item st Let_def intro: Cons.IH)
  qed
qed


lemma filter_false_accounts_written:
  "written_files (fst (filter_false_accounts chain ed v p name w)) = written_files w"
proof -
  let ?items = "enumerate 0 (concat (System_Account chain (submitted w)))"
  let ?w0 = "w\<lparr>queries := queries w + 1\<rparr>"
  let ?r = "filter_false_accounts_loop p v ed name ?items ([], 0) ?w0"
  have frame: "written_files (fst ?r) = written_files w"
    using filter_false_accounts_loop_written [of p v ed name ?items "([], 0)" ?w0] by simp
  show ?thesis
  proof (cases ?r)
    case (Pair w1 res)
    with frame show ?thesis
      by (cases res) (auto simp add: filter_false_accounts_def Let_def)
  qed
qed

lemma filter_false_accounts_result:
  assumes "submitted w = submitted w'"
  shows "snd (filter_false_accounts chain ed v p name w) =
         snd (filter_false_accounts chain ed v p name w')"
proof -
  let ?items = "enumerate 0 (concat (System_Account chain (submitted w')))"
  let ?r = "filter_false_accounts_loop p v ed name ?items ([], 0) (w\<lparr>queries := queries w + 1\<rparr>)"
  let ?r' = "filter_false_accounts_loop p v ed name ?items ([], 0) (w'\<lparr>queries := queries w' + 1\<rparr>)"
  have eq: "snd ?r = snd ?r'"
    by (rule filter_false_accounts_loop_result)
  have a: "snd (filter_false_accounts chain ed v p name w) =
      (case snd ?r of Inl e \<Rightarrow> Inl e | Inr (bad, cnt) \<Rightarrow> Inr bad)"
    unfolding filter_false_accounts_def Let_def assms
    by (cases ?r) (auto split: sum.splits)
  have b: "snd (filter_false_accounts chain ed v p name w') =
      (case snd ?r' of Inl e \<Rightarrow> Inl e | Inr (bad, cnt) \<Rightarrow> Inr bad)"
    unfolding filter_false_accounts_def Let_def
    by (cases ?r') (auto split: sum.splits)
  show ?thesis
    unfolding a b eq ..
qed

lemma submit_extrinsic_frame:
  "files (fst (submit_extrinsic chain ext n d w)) = files w \<and>
   written_files (fst (submit_extrinsic chain ext n d w)) = written_files w"
  by (auto simp add: submit_extrinsic_def Let_def split: sum.splits error.splits)

lemma batch_transfer_loop_frame:
  "files (fst (batch_transfer_loop chain input_args cs amount kp w)) = files w \<and>
   written_files (fst (batch_transfer_loop chain input_args cs amount kp w)) = written_files w"
proof (induction cs arbitrary: w)
  case Nil
  show ?case by simp
next
  case (Cons c rest)
  let ?E = "transfer_extrinsic amount kp c"
  let ?w2 = "log_msg INFO (About_to_send_transfers (length c) amount kp c)
               (w\<lparr>signed := signed w @ [?E]\<rparr>)"
  let ?r = "submit_extrinsic chain ?E (length c) (args_dry_run input_args) ?w2"
  have step: "files (fst ?r) = files w \<and> written_files (fst ?r) = written_files w"
    using submit_extrinsic_frame [of chain ?E "length c" "args_dry_run input_args" ?w2]
    by simp
  show ?case
  proof (cases ?r)
    case (Pair w3 res)
    with step show ?thesis
      by (cases res) (simp_all add: Let_def Cons.IH)
  qed
qed

lemma batch_transfer_frame:
  "files (fst (batch_transfer chain input_args accounts amount kp w)) = files w \<and>
   written_files (fst (batch_transfer chain input_args accounts amount kp w)) = written_files w"
  by (cases "chunks accounts (args_transfer_calls_in_batch input_args)")
    (simp_all add: batch_transfer_def batch_transfer_loop_frame)


lemma find_dust_accounts_frame:
  "files (fst (find_dust_accounts chain ed v w)) = files w \<and>
   written_files (fst (find_dust_accounts chain ed v w)) = written_files w"
  by (simp add: find_dust_accounts_def filter_false_accounts_frame
        filter_false_accounts_written)

lemma find_dust_accounts_result:
  assumes "submitted w = submitted w'"
  shows "snd (find_dust_accounts chain ed v w) = snd (find_dust_accounts chain ed v w')"
  using filter_false_accounts_result [OF assms]
  by (simp add: find_dust_accounts_def)

lemma perform_account_sanity_checks_writes:
  fixes chain ed v w
  defines "scan \<equiv> snd (filter_false_accounts chain ed v check_account_invariants
                          (quoted ''account invariants'') w)"
  shows "scan = Inr [] \<Longrightarrow>
           files (fst (perform_account_sanity_checks chain ed v w)) = files w \<and>
           written_files (fst (perform_account_sanity_checks chain ed v w)) = written_files w"
    and "scan = Inl e \<Longrightarrow>
           files (fst (perform_account_sanity_checks chain ed v w)) = files w \<and>
           written_files (fst (perform_account_sanity_checks chain ed v w)) = written_files w"
    and "scan = Inr bad \<Longrightarrow> bad \<noteq> [] \<Longrightarrow>
           files (fst (perform_account_sanity_checks chain ed v w)) =
             (files w)(''accounts-with-failed-invariants.json'' \<mapsto> bad) \<and>
           written_files (fst (perform_account_sanity_checks chain ed v w)) =
             written_files w @ [''accounts-with-failed-invariants.json'']"
proof -
  let ?r = "filter_false_accounts chain ed v check_account_invariants
              (quoted ''account invariants'') w"
  have frame: "files (fst ?r) = files w" "written_files (fst ?r) = written_files w"
    by (simp_all add: filter_false_accounts_frame filter_false_accounts_written)
  obtain w1 res where r: "?r = (w1, res)"
    by (cases ?r)
  have w1: "files w1 = files w" "written_files w1 = written_files w"
    using frame by (simp_all add: r)
  have res: "scan = res"
    by (simp add: scan_def r)
  show "files (fst (perform_account_sanity_checks chain ed v w)) = files w \<and>
        written_files (fst (perform_account_sanity_checks chain ed v w)) = written_files w"
    if "scan = Inr []"
    using that w1 by (simp add: perform_account_sanity_checks_def r res)
  show "files (fst (perform_account_sanity_checks chain ed v w)) = files w \<and>
        written_files (fst (perform_account_sanity_checks chain ed v w)) = written_files w"
    if "scan = Inl e"
    using that w1 by (simp add: perform_account_sanity_checks_def r res)
  show "files (fst (perform_account_sanity_checks chain ed v w)) =
             (files w)(''accounts-with-failed-invariants.json'' \<mapsto> bad) \<and>
           written_files (fst (perform_account_sanity_checks chain ed v w)) =
             written_files w @ [''accounts-with-failed-invariants.json'']"
    if "scan = Inr bad" and "bad \<noteq> []"
    using that w1
    by (simp add: perform_account_sanity_checks_def r res save_accounts_to_json_file_def)
qed

lemma fix_free_balance_block_writes:
  fixes chain ed v w
  defines "scan \<equiv> snd (find_dust_accounts chain ed v w)"
  shows "scan = Inr [] \<Longrightarrow>
           files (fst (fix_free_balance_block args (Some seed) chain ed v w)) = files w \<and>
           written_files (fst (fix_free_balance_block args (Some seed) chain ed v w)) =
             written_files w"
    and "scan = Inl e \<Longrightarrow>
           files (fst (fix_free_balance_block args (Some seed) chain ed v w)) = files w \<and>
           written_files (fst (fix_free_balance_block args (Some seed) chain ed v w)) =
             written_files w"
    and "scan = Inr dust \<Longrightarrow> dust \<noteq> [] \<Longrightarrow>
           files (fst (fix_free_balance_block args (Some seed) chain ed v w)) =
             (files w)(''dust-accounts.json'' \<mapsto> dust) \<and>
           written_files (fst (fix_free_balance_block args (Some seed) chain ed v w)) =
             written_files w @ [''dust-accounts.json'']"
proof -
  let ?kp = "create_from_uri seed"
  let ?w3 = "log_msg INFO Looking_for_accounts_that_would_be_dust_in_12_version
               (log_msg INFO
                  (Will_send_at_most_transfers_in_a_batch (args_transfer_calls_in_batch args))
                  (log_msg INFO (Using_following_account_for_transfers ?kp) w))"
  let ?r = "find_dust_accounts chain ed v ?w3"
  have frame: "files (fst ?r) = files w" "written_files (fst ?r) = written_files w"
    by (simp_all add: find_dust_accounts_frame)
  obtain w4 res where r: "?r = (w4, res)"
    by (cases ?r)
  have w4: "files w4 = files w" "written_files w4 = written_files w"
    using frame by (simp_all add: r)
  have "snd ?r = scan"
    unfolding scan_def by (rule find_dust_accounts_result) simp
  then have res: "scan = res"
    by (simp add: r)
  show "files (fst (fix_free_balance_block args (Some seed) chain ed v w)) = files w \<and>
        written_files (fst (fix_free_balance_block args (Some seed) chain ed v w)) =
          written_files w"
    if "scan = Inr []"
    using that w4 by (simp add: fix_free_balance_block_def Let_def r res)
  show "files (fst (fix_free_balance_block args (Some seed) chain ed v w)) = files w \<and>
        written_files (fst (fix_free_balance_block args (Some seed) chain ed v w)) =
          written_files w"
    if "scan = Inl e"
    using that w4 by (simp add: fix_free_balance_block_def Let_def r res)
  show "files (fst (fix_free_balance_block args (Some seed) chain ed v w)) =
             (files w)(''dust-accounts.json'' \<mapsto> dust) \<and>
           written_files (fst (fix_free_balance_block args (Some seed) chain ed v w)) =
             written_files w @ [''dust-accounts.json'']"
    if "scan = Inr dust" and "dust \<noteq> []"
  proof -
    let ?w7 = "log_msg INFO Adjusting_balances_by_sending_transfers
                 (save_accounts_to_json_file ''dust-accounts.json'' dust
                    (log_msg INFO
                       (Found_accounts_that_will_be_invalid_in_12_version (length dust)) w4))"
    let ?t = "batch_transfer chain args (map fst dust) ed ?kp ?w7"
    have w7: "files ?w7 = (files w)(''dust-accounts.json'' \<mapsto> dust)"
      "written_files ?w7 = written_files w @ [''dust-accounts.json'']"
      using w4 by (simp_all add: save_accounts_to_json_file_def)
    have t: "files (fst ?t) = (files w)(''dust-accounts.json'' \<mapsto> dust)"
      "written_files (fst ?t) = written_files w @ [''dust-accounts.json'']"
      using w7 batch_transfer_frame [of chain args "map fst dust" ed ?kp ?w7] by simp_all
    obtain w8 out where out: "?t = (w8, out)"
      by (cases ?t)
    from t have w8: "files w8 = (files w)(''dust-accounts.json'' \<mapsto> dust)"
      "written_files w8 = written_files w @ [''dust-accounts.json'']"
      by (simp_all add: out)
    have res': "res = Inr dust"
      using that(1) res by simp
    show ?thesis
      using that(2) w8
      by (cases out) (simp_all add: fix_free_balance_block_def Let_def r res' out)
  qed
qed


lemma check_if_account_would_be_dust_account_pre_12 [simp]:
  "check_if_account_would_be_dust_in_12_version (account_pre_12 p c f r)
     PRE_12_MAJOR_VERSION ed =
     (if ((p \<le> 1 \<and> c = 0) \<or> (c > 0 \<and> p = 1)) \<and> f + r \<ge> ed \<and> f \<ge> 0
      then Inr (f < ed)
      else Inl (AssertionError ''Account does not meet pre-12 version invariants!''))"
  by (simp add: check_if_account_would_be_dust_in_12_version_def
        check_account_invariants_def account_pre_12_def Let_def)

text \<open>
  Claim C10. When the scan of the sanity check returns the empty list, or raises, the
  sanity check leaves every file as it was and does not invoke the artifact writer; when
  it returns a non-empty list, the file \<open>accounts-with-failed-invariants.json\<close> holds
  that list afterwards, no other file has changed and the writer was invoked once, for
  that file. The same holds for the dust scan of a fix-free-balance run and the file
  \<open>dust-accounts.json\<close>.
\<close>

theorem artifact_written_only_for_nonempty_scan:
  "(snd (filter_false_accounts chain ed v check_account_invariants
           (quoted ''account invariants'') w) = Inr [] \<longrightarrow>
      files (fst (perform_account_sanity_checks chain ed v w)) = files w \<and>
      written_files (fst (perform_account_sanity_checks chain ed v w)) = written_files w) \<and>
   (\<forall>e. snd (filter_false_accounts chain ed v check_account_invariants
           (quoted ''account invariants'') w) = Inl e \<longrightarrow>
      files (fst (perform_account_sanity_checks chain ed v w)) = files w \<and>
      written_files (fst (perform_account_sanity_checks chain ed v w)) = written_files w) \<and>
   (\<forall>bad. snd (filter_false_accounts chain ed v check_account_invariants
           (quoted ''account invariants'') w) = Inr bad \<and> bad \<noteq> [] \<longrightarrow>
      files (fst (perform_account_sanity_checks chain ed v w)) =
        (files w)(''accounts-with-failed-invariants.json'' \<mapsto> bad) \<and>
      written_files (fst (perform_account_sanity_checks chain ed v w)) =
        written_files w @ [''accounts-with-failed-invariants.json'']) \<and>
   (snd (find_dust_accounts chain ed v w) = Inr [] \<longrightarrow>
      files (fst (fix_free_balance_block args (Some seed) chain ed v w)) = files w \<and>
      written_files (fst (fix_free_balance_block args (Some seed) chain ed v w)) =
        written_files w) \<and>
   (\<forall>e. snd (find_dust_accounts chain ed v w) = Inl e \<longrightarrow>
      files (fst (fix_free_balance_block args (Some seed) chain ed v w)) = files w \<and>
      written_files (fst (fix_free_balance_block args (Some seed) chain ed v w)) =
        written_files w) \<and>
   (\<forall>dust. snd (find_dust_accounts chain ed v w) = Inr dust \<and> dust \<noteq> [] \<longrightarrow>
      files (fst (fix_free_balance_block args (Some seed) chain ed v w)) =
        (files w)(''dust-accounts.json'' \<mapsto> dust) \<and>
      written_files (fst (fix_free_balance_block args (Some seed) chain ed v w)) =
        written_files w @ [''dust-accounts.json''])"
proof (intro conjI allI impI)
  show "files (fst (perform_account_sanity_checks chain ed v w)) = files w"
    if "snd (filter_false_accounts chain ed v check_account_invariants
           (quoted ''account invariants'') w) = Inr []"
    using perform_account_sanity_checks_writes(1) [OF that] by simp
  show "written_files (fst (perform_account_sanity_checks chain ed v w)) = written_files w"
    if "snd (filter_false_accounts chain ed v check_account_invariants
           (quoted ''account invariants'') w) = Inr []"
    using perform_account_sanity_checks_writes(1) [OF that] by simp
  show "files (fst (perform_account_sanity_checks chain ed v w)) = files w"
    if "snd (filter_false_accounts chain ed v check_account_invariants
           (quoted ''account invariants'') w) = Inl e" for e
    using perform_account_sanity_checks_writes(2) [OF that] by simp
  show "written_files (fst (perform_account_sanity_checks chain ed v w)) = written_files w"
    if "snd (filter_false_accounts chain ed v check_account_invariants
           (quoted ''account invariants'') w) = Inl e" for e
    using perform_account_sanity_checks_writes(2) [OF that] by simp
  show "files (fst (perform_account_sanity_checks chain ed v w)) =
        (files w)(''accounts-with-failed-invariants.json'' \<mapsto> bad)"
    if "snd (filter_false_accounts chain ed v check_account_invariants
           (quoted ''account invariants'') w) = Inr bad \<and> bad \<noteq> []" for bad
    using perform_account_sanity_checks_writes(3) [of chain ed v w bad] that by simp
  show "written_files (fst (perform_account_sanity_checks chain ed v w)) =
        written_files w @ [''accounts-with-failed-invariants.json'']"
    if "snd (filter_false_accounts chain ed v check_account_invariants
           (quoted ''account invariants'') w) = Inr bad \<and> bad \<noteq> []" for bad
    using perform_account_sanity_checks_writes(3) [of chain ed v w bad] that by simp
  show "files (fst (fix_free_balance_block args (Some seed) chain ed v w)) = files w"
    if "snd (find_dust_accounts chain ed v w) = Inr []"
    using fix_free_balance_block_writes(1) [OF that] by simp
  show "written_files (fst (fix_free_balance_block args (Some seed) chain ed v w)) =
        written_files w"
    if "snd (find_dust_accounts chain ed v w) = Inr []"
    using fix_free_balance_block_writes(1) [OF that] by simp
  show "files (fst (fix_free_balance_block args (Some seed) chain ed v w)) = files w"
    if "snd (find_dust_accounts chain ed v w) = Inl e" for e
    using fix_free_balance_block_writes(2) [OF that] by simp
  show "written_files (fst (fix_free_balance_block args (Some seed) chain ed v w)) =
        written_files w"
    if "snd (find_dust_accounts chain ed v w) = Inl e" for e
    using fix_free_balance_block_writes(2) [OF that] by simp
  show "files (fst (fix_free_balance_block args (Some seed) chain ed v w)) =
        (files w)(''dust-accounts.json'' \<mapsto> dust)"
    if "snd (find_dust_accounts chain ed v w) = Inr dust \<and> dust \<noteq> []" for dust
    using fix_free_balance_block_writes(3) [of chain ed v w dust] that by simp
  show "written_files (fst (fix_free_balance_block args (Some seed) chain ed v w)) =
        written_files w @ [''dust-accounts.json'']"
    if "snd (find_dust_accounts chain ed v w) = Inr dust \<and> dust \<noteq> []" for dust
    using fix_free_balance_block_writes(3) [of chain ed v w dust] that by simp
qed


theorem artifact_written_only_for_nonempty_scan_witness:
  "files (fst (perform_account_sanity_checks one_account_chain 500 PRE_12_MAJOR_VERSION
                 later_world)) = files later_world \<and>
   written_files (fst (perform_account_sanity_checks one_account_chain 500
                         PRE_12_MAJOR_VERSION later_world)) = [] \<and>
   files (fst (perform_account_sanity_checks example_chain 500 PRE_12_MAJOR_VERSION
                 later_world)) ''accounts-with-failed-invariants.json'' =
     Some [(''5A02'', account_pre_12 2 0 1000 0), (''5A09'', account_pre_12 1 0 300 100)] \<and>
   files (fst (fix_free_balance_block example_args (Some ''//Alice'') one_account_chain 500
                 PRE_12_MAJOR_VERSION later_world)) = files later_world \<and>
   written_files (fst (fix_free_balance_block example_args (Some ''//Alice'')
                         one_account_chain 500 PRE_12_MAJOR_VERSION later_world)) = [] \<and>
   files (fst (fix_free_balance_block example_args (Some ''//Alice'') dusty_chain 500
                 PRE_12_MAJOR_VERSION later_world)) ''dust-accounts.json'' =
     Some [(''5A06'', account_pre_12 1 0 499 1)] \<and>
   written_files (fst (fix_free_balance_block example_args (Some ''//Alice'') dusty_chain 500
                         PRE_12_MAJOR_VERSION later_world)) = [''dust-accounts.json'']"
proof -
  have sub: "submitted later_world = []"
    by (simp add: later_world_def initial_world_def)
  have none: "written_files later_world = []"
    by (simp add: later_world_def initial_world_def written_files_def)
  have one: "concat (System_Account one_account_chain (submitted later_world)) =
      [(''5A01'', account_pre_12 1 0 1000 0)]"
    by (simp add: one_account_chain_def)
  have pages: "concat (System_Account example_chain (submitted later_world)) =
      concat example_pages"
    by (simp add: example_chain_def)
  have dusty: "concat (System_Account dusty_chain (submitted later_world)) =
      [(''5A04'', account_pre_12 1 1 700 50), (''5A06'', account_pre_12 1 0 499 1),
       (''5A07'', account_pre_12 1 0 1000 0)]"
    by (simp add: dusty_chain_def)
  have s1: "snd (filter_false_accounts one_account_chain 500 PRE_12_MAJOR_VERSION
      check_account_invariants (quoted ''account invariants'') later_world) = Inr []"
    by (subst filter_false_accounts_returns(1)) (auto simp add: one)
  have s2: "snd (filter_false_accounts example_chain 500 PRE_12_MAJOR_VERSION
      check_account_invariants (quoted ''account invariants'') later_world) =
      Inr [(''5A02'', account_pre_12 2 0 1000 0), (''5A09'', account_pre_12 1 0 300 100)] \<and>
      [(''5A02'', account_pre_12 2 0 1000 0), (''5A09'', account_pre_12 1 0 300 100)] \<noteq> []"
    by (subst filter_false_accounts_returns(1))
      (auto simp add: pages example_pages_def serialize_def)
  have d1: "snd (find_dust_accounts one_account_chain 500 PRE_12_MAJOR_VERSION later_world)
      = Inr []"
    unfolding find_dust_accounts_def
    by (simp, subst filter_false_accounts_returns(1)) (auto simp add: one)
  have d2: "snd (find_dust_accounts dusty_chain 500 PRE_12_MAJOR_VERSION later_world)
      = Inr [(''5A06'', account_pre_12 1 0 499 1)] \<and>
      [(''5A06'', account_pre_12 1 0 499 1)] \<noteq> []"
    unfolding find_dust_accounts_def
    by (simp, subst filter_false_accounts_returns(1)) (auto simp add: dusty serialize_def)
  note T1 = artifact_written_only_for_nonempty_scan
    [where chain = one_account_chain and ed = 500 and v = PRE_12_MAJOR_VERSION
       and w = later_world and args = example_args and seed = "''//Alice''"]
  note T2 = artifact_written_only_for_nonempty_scan
    [where chain = example_chain and ed = 500 and v = PRE_12_MAJOR_VERSION
       and w = later_world and args = example_args and seed = "''//Alice''"]
  note T3 = artifact_written_only_for_nonempty_scan
    [where chain = dusty_chain and ed = 500 and v = PRE_12_MAJOR_VERSION
       and w = later_world and args = example_args and seed = "''//Alice''"]
  note a = T1 [THEN conjunct1, THEN mp, OF s1]
  note b = T2 [THEN conjunct2, THEN conjunct2, THEN conjunct1, THEN spec, THEN mp, OF s2]
  note c = T1 [THEN conjunct2, THEN conjunct2, THEN conjunct2, THEN conjunct1, THEN mp, OF d1]
  note d = T3 [THEN conjunct2, THEN conjunct2, THEN conjunct2, THEN conjunct2, THEN conjunct2,
               THEN spec, THEN mp, OF d2]
  from a b c d show ?thesis
    by (simp add: none)
qed


lemma frame_log_msg [simp]:
  "queries (log_msg lvl m w) = queries w"
  "signed (log_msg lvl m w) = signed w"
  by (simp_all add: log_msg_def)

section \<open>Properties of the orchestrator\<close>

text \<open>
  Claim C9, as the code has it. A run with a remediation flag and no \<open>SENDER_ACCOUNT\<close>
  logs an error and exits with code 1 at once: nothing else has happened, whatever the
  chain's version. A run whose credential is present exits with code 2 when
  \<open>--fix-free-balance\<close> is requested and the regime is not the pre-upgrade one, and with
  code 3 when \<open>--upgrade-accounts\<close> is requested and the regime is not the
  at-least-upgrade one; up to either exit no storage query was started, no extrinsic was
  signed or submitted and no file was written.
\<close>

theorem main_fatal_preconditions:
  "((args_fix_free_balance args \<or> args_upgrade_accounts args) \<longrightarrow>
      main args None chain w =
        (log_msg ERROR SENDER_ACCOUNT_must_exist_Exiting w, Inl (SystemExit 1))) \<and>
   (args_fix_free_balance args \<and> get_chain_major_version chain = Inr v \<and>
    v \<noteq> PRE_12_MAJOR_VERSION \<longrightarrow>
      snd (main args (Some seed) chain w) = Inl (SystemExit 2) \<and>
      queries (fst (main args (Some seed) chain w)) = queries w \<and>
      signed (fst (main args (Some seed) chain w)) = signed w \<and>
      submitted (fst (main args (Some seed) chain w)) = submitted w \<and>
      files (fst (main args (Some seed) chain w)) = files w) \<and>
   (args_upgrade_accounts args \<and> get_chain_major_version chain = Inr v \<and>
    v \<noteq> AT_LEAST_12_MAJOR_VERSION \<longrightarrow>
      snd (main args (Some seed) chain w) = Inl (SystemExit 3) \<and>
      queries (fst (main args (Some seed) chain w)) = queries w \<and>
      signed (fst (main args (Some seed) chain w)) = signed w \<and>
      submitted (fst (main args (Some seed) chain w)) = submitted w \<and>
      files (fst (main args (Some seed) chain w)) = files w)"
proof (intro conjI impI)
  show "main args None chain w =
        (log_msg ERROR SENDER_ACCOUNT_must_exist_Exiting w, Inl (SystemExit 1))"
    if "args_fix_free_balance args \<or> args_upgrade_accounts args"
    using that by (simp add: main_def)
next
  assume "args_fix_free_balance args \<and> get_chain_major_version chain = Inr v \<and>
    v \<noteq> PRE_12_MAJOR_VERSION"
  then have exit2: "main args (Some seed) chain w =
      (log_msg ERROR Fix_free_balance_only_on_pre_12_Exiting
         (log_msg INFO (Major_version_of_chain_connected_to_is v)
            (log_msg INFO
               (Connected_to (chain_name chain) (chain_chain chain) (chain_version chain))
               (if args_dry_run args then log_msg INFO Dry_run_mode_is_enabled w else w))),
       Inl (SystemExit 2))"
    by (simp add: main_def Let_def)
  show "snd (main args (Some seed) chain w) = Inl (SystemExit 2)"
    and "queries (fst (main args (Some seed) chain w)) = queries w"
    and "signed (fst (main args (Some seed) chain w)) = signed w"
    and "submitted (fst (main args (Some seed) chain w)) = submitted w"
    and "files (fst (main args (Some seed) chain w)) = files w"
    unfolding exit2 by simp_all
next
  assume "args_upgrade_accounts args \<and> get_chain_major_version chain = Inr v \<and>
    v \<noteq> AT_LEAST_12_MAJOR_VERSION"
  then have exit3: "main args (Some seed) chain w =
      (log_msg ERROR Upgrade_accounts_only_on_at_least_12_Exiting
         (log_msg INFO (Major_version_of_chain_connected_to_is v)
            (log_msg INFO
               (Connected_to (chain_name chain) (chain_chain chain) (chain_version chain))
               (if args_dry_run args then log_msg INFO Dry_run_mode_is_enabled w else w))),
       Inl (SystemExit 3))"
    by (cases v) (simp_all add: main_def Let_def)
  show "snd (main args (Some seed) chain w) = Inl (SystemExit 3)"
    and "queries (fst (main args (Some seed) chain w)) = queries w"
    and "signed (fst (main args (Some seed) chain w)) = signed w"
    and "submitted (fst (main args (Some seed) chain w)) = submitted w"
    and "files (fst (main args (Some seed) chain w)) = files w"
    unfolding exit3 by simp_all
qed

theorem main_fatal_preconditions_witness:
  "main example_args None example_chain initial_world =
     (log_msg ERROR SENDER_ACCOUNT_must_exist_Exiting initial_world, Inl (SystemExit 1)) \<and>
   snd (main example_args (Some ''//Alice'') upgraded_chain initial_world) =
     Inl (SystemExit 2) \<and>
   queries (fst (main example_args (Some ''//Alice'') upgraded_chain initial_world)) = 0 \<and>
   signed (fst (main example_args (Some ''//Alice'') upgraded_chain initial_world)) = [] \<and>
   snd (main upgrade_args (Some ''//Alice'') example_chain initial_world) =
     Inl (SystemExit 3) \<and>
   queries (fst (main upgrade_args (Some ''//Alice'') example_chain initial_world)) = 0 \<and>
   signed (fst (main upgrade_args (Some ''//Alice'') example_chain initial_world)) = []"
proof -
  have flag: "args_fix_free_balance example_args \<or> args_upgrade_accounts example_args"
    by (simp add: example_args_def)
  have wrong2: "args_fix_free_balance example_args \<and>
      get_chain_major_version upgraded_chain = Inr AT_LEAST_12_MAJOR_VERSION \<and>
      AT_LEAST_12_MAJOR_VERSION \<noteq> PRE_12_MAJOR_VERSION"
    by (simp add: example_args_def upgraded_chain_def example_chain_def
          get_chain_major_version_def from_spec_version_def ChainMajorVersion_call_def)
  have wrong3: "args_upgrade_accounts upgrade_args \<and>
      get_chain_major_version example_chain = Inr PRE_12_MAJOR_VERSION \<and>
      PRE_12_MAJOR_VERSION \<noteq> AT_LEAST_12_MAJOR_VERSION"
    by (simp add: upgrade_args_def example_args_def example_chain_def
          get_chain_major_version_def from_spec_version_def ChainMajorVersion_call_def)
  note a = main_fatal_preconditions
    [where args = example_args and chain = example_chain and w = initial_world,
     THEN conjunct1, THEN mp, OF flag]
  note b = main_fatal_preconditions
    [where args = example_args and chain = upgraded_chain and w = initial_world
       and seed = "''//Alice''" and v = AT_LEAST_12_MAJOR_VERSION,
     THEN conjunct2, THEN conjunct1, THEN mp, OF wrong2]
  note c = main_fatal_preconditions
    [where args = upgrade_args and chain = example_chain and w = initial_world
       and seed = "''//Alice''" and v = PRE_12_MAJOR_VERSION,
     THEN conjunct2, THEN conjunct2, THEN mp, OF wrong3]
  from a b c show ?thesis
    by (simp add: initial_world_def)
qed

text \<open>
  Claim C9 as the specification words it gives code 2 to every fix-free-balance run on a
  chain past the upgrade. Without the credential such a run exits with code 1: the
  credential is checked before the chain is asked for its version.
\<close>

theorem main_exits_1_on_wrong_regime_without_credential:
  "args_fix_free_balance example_args \<and>
   get_chain_major_version upgraded_chain = Inr AT_LEAST_12_MAJOR_VERSION \<and>
   snd (main example_args None upgraded_chain initial_world) = Inl (SystemExit 1)"
  by (simp add: main_def example_args_def upgraded_chain_def example_chain_def
        get_chain_major_version_def from_spec_version_def ChainMajorVersion_call_def)


end
